theory Spec2Isabelle
  imports Complex_Main "HOL-Library.Sublist" "HOL-Library.AList" "HOL-Library.Char_ord"
    "HOL-Library.List_Lexorder"
begin

section \<open>Strings\<close>

text \<open>
  Go strings are byte sequences; they are modelled as \<open>string\<close> (a list of 8-bit
  characters). \<open>strings.ToLower\<close> and \<open>strings.TrimSpace\<close> belong to the Go standard
  library; they are modelled on the ASCII range, where lower-casing shifts the letters
  \<open>A\<close>..\<open>Z\<close> by 32 and white space is tab, line feed, vertical tab, form feed, carriage
  return and space.
\<close>

definition lower_char :: "char \<Rightarrow> char" where
  "lower_char c =
     (let n = (of_char c :: nat) in if 65 \<le> n \<and> n \<le> 90 then char_of (n + 32) else c)"

definition to_lower :: "string \<Rightarrow> string" where
  "to_lower s = map lower_char s"

definition is_space :: "char \<Rightarrow> bool" where
  "is_space c = (let n = (of_char c :: nat) in (9 \<le> n \<and> n \<le> 13) \<or> n = 32)"

definition trim_space :: "string \<Rightarrow> string" where
  "trim_space s = rev (dropWhile is_space (rev (dropWhile is_space s)))"

section \<open>Errors\<close>

text \<open>
  Every error value the modelled functions can return. \<open>APIError\<close> carries the HTTP
  status code of a non-2xx response; \<open>CtxErr\<close> is \<open>ctx.Err()\<close> of a cancelled context.
\<close>

datatype error =
    InvalidMode string
  | NoSelectors
  | NoNamesProvided
  | NoComponents
  | IOError
  | TokenRequired
  | MarshalError
  | RequestError
  | TransportError
  | DecodeError
  | CtxErr
  | APIError int
  | PresetIDRequired

section \<open>internal/matcher\<close>

definition ModeExact :: string where "ModeExact = ''exact''"
definition ModePrefix :: string where "ModePrefix = ''prefix''"
definition ModeGlob :: string where "ModeGlob = ''glob''"

definition validModes :: "string list" where
  "validModes = [ModeExact, ModePrefix, ModeGlob]"

text \<open>\<open>ValidateMode\<close> returns \<open>None\<close> for Go's \<open>nil\<close> error.\<close>

definition ValidateMode :: "string \<Rightarrow> error option" where
  "ValidateMode mode0 =
     (let mode = to_lower mode0 in
      if mode \<in> set validModes then None else Some (InvalidMode mode))"

text \<open>
  \<open>matches value selector mode\<close>. The glob case calls \<open>filepath.Match\<close> of the standard
  library; the parameter \<open>gm selector value\<close> stands for \<open>err == nil && ok\<close> of that call.
\<close>

definition matches :: "(string \<Rightarrow> string \<Rightarrow> bool) \<Rightarrow> string \<Rightarrow> string \<Rightarrow> string \<Rightarrow> bool" where
  "matches gm val selector mode =
     (if mode = ModeExact then val = selector
      else if mode = ModePrefix then prefix selector val
      else if mode = ModeGlob then gm selector val
      else False)"

text \<open>
  The inner loop of \<open>Filter\<close>: \<open>for i, selector := range normSelectors\<close>, carrying the
  index \<open>i\<close>, the \<open>hit\<close> slice and the \<open>match\<close> flag.
\<close>

fun scan_selectors ::
  "(string \<Rightarrow> string \<Rightarrow> bool) \<Rightarrow> string \<Rightarrow> string \<Rightarrow> string list \<Rightarrow> nat \<Rightarrow> bool list \<times> bool
     \<Rightarrow> bool list \<times> bool" where
  "scan_selectors gm mode cmp [] i (hit, match) = (hit, match)"
| "scan_selectors gm mode cmp (selector # rest) i (hit, match) =
     (if selector = [] then scan_selectors gm mode cmp rest (Suc i) (hit, match)
      else if matches gm cmp selector mode
        then scan_selectors gm mode cmp rest (Suc i) (hit[i := True], True)
        else scan_selectors gm mode cmp rest (Suc i) (hit, match))"

text \<open>
  The outer loop \<open>for _, item := range items\<close>, carrying \<open>selected\<close>, \<open>hit\<close> and the
  \<open>seen\<close> set of names (kept as a list).
\<close>

fun filter_items ::
  "(string \<Rightarrow> string \<Rightarrow> bool) \<Rightarrow> string \<Rightarrow> ('a \<Rightarrow> string) \<Rightarrow> string list \<Rightarrow> 'a list
     \<Rightarrow> 'a list \<times> bool list \<times> string list \<Rightarrow> 'a list \<times> bool list \<times> string list" where
  "filter_items gm mode nameFn sels [] st = st"
| "filter_items gm mode nameFn sels (item # items) (selected, hit, seen) =
     (let name = nameFn item;
          cmp = to_lower name;
          (hit', match) = scan_selectors gm mode cmp sels 0 (hit, False)
      in if match \<and> name \<notin> set seen
         then filter_items gm mode nameFn sels items (selected @ [item], hit', name # seen)
         else filter_items gm mode nameFn sels items (selected, hit', seen))"

text \<open>
  \<open>Filter items nameFn selectors mode all\<close>. A \<open>nil\<close> slice and an empty slice are both
  the empty list. The result is \<open>Inl err\<close> or \<open>Inr (selected, missing)\<close>.
\<close>

definition Filter ::
  "(string \<Rightarrow> string \<Rightarrow> bool) \<Rightarrow> 'a list \<Rightarrow> ('a \<Rightarrow> string) \<Rightarrow> string list \<Rightarrow> string \<Rightarrow> bool
     \<Rightarrow> error + ('a list \<times> string list)" where
  "Filter gm items nameFn selectors mode0 all =
     (let mode = to_lower mode0 in
      case ValidateMode mode of
        Some e \<Rightarrow> Inl e
      | None \<Rightarrow>
          if all then Inr (items, [])
          else if selectors = [] then Inl NoSelectors
          else
            let normSelectors = map (\<lambda>s. to_lower (trim_space s)) selectors;
                hit = replicate (length normSelectors) False;
                (selected, hit', seen) =
                   filter_items gm mode nameFn normSelectors items ([], hit, [])
            in Inr (selected,
                    map (\<lambda>i. selectors ! i) (filter (\<lambda>i. \<not> hit' ! i) [0..<length hit'])))"

text \<open>A glob matcher that accepts nothing, for evaluating concrete calls.\<close>

definition glob_never :: "string \<Rightarrow> string \<Rightarrow> bool" where
  "glob_never pattern val = False"


section \<open>internal/infra/limiter\<close>

text \<open>
  \<open>time.Time\<close> is a number of nanoseconds on the wall clock and \<open>time.Duration\<close> a number
  of nanoseconds, both as \<open>int\<close>. The \<open>float64\<close> fields of a bucket are modelled as
  rationals: the arithmetic of the source is carried out exactly, without the rounding
  of IEEE doubles. \<open>time.Now()\<close> is an input of every function that reads the clock.
\<close>

definition Millisecond :: int where "Millisecond = 1000000"
definition Second :: int where "Second = 1000000000"

record tokenBucket =
  rps :: rat
  burst :: rat
  tokens :: rat
  lastRefill :: int

record spaceBuckets =
  readB :: tokenBucket
  writeB :: tokenBucket

text \<open>
  The \<open>spaces\<close> map is an association list, looked up with \<open>map_of\<close>. Three field names
  differ from the source: \<open>read\<close> and \<open>write\<close> of \<open>spaceBuckets\<close> are \<open>readB\<close> and \<open>writeB\<close>
  (\<open>write\<close> is a reserved word), \<open>last\<close> of \<open>tokenBucket\<close> is \<open>lastRefill\<close>, and \<open>burst\<close> of
  \<open>SpaceLimiter\<close> is \<open>burstCap\<close>.
\<close>

record SpaceLimiter =
  spaces :: "(int \<times> spaceBuckets) list"
  defReadRPS :: rat
  defWriteRPS :: rat
  burstCap :: rat

definition NewSpaceLimiter :: "rat \<Rightarrow> rat \<Rightarrow> int \<Rightarrow> SpaceLimiter" where
  "NewSpaceLimiter readRPS writeRPS burst0 =
     \<lparr> spaces = [],
       defReadRPS = (if readRPS \<le> 0 then 7 else readRPS),
       defWriteRPS = (if writeRPS \<le> 0 then 7 else writeRPS),
       burstCap = of_int (if burst0 \<le> 0 then 7 else burst0) \<rparr>"

definition newBucket :: "rat \<Rightarrow> rat \<Rightarrow> int \<Rightarrow> tokenBucket" where
  "newBucket r b now = \<lparr> rps = r, burst = b, tokens = b, lastRefill = now \<rparr>"

text \<open>\<open>get\<close> returns the buckets of a space, creating them at clock reading \<open>now\<close>.\<close>

definition get :: "SpaceLimiter \<Rightarrow> int \<Rightarrow> int \<Rightarrow> spaceBuckets \<times> SpaceLimiter" where
  "get sl spaceID now =
     (case map_of (spaces sl) spaceID of
        Some bucket \<Rightarrow> (bucket, sl)
      | None \<Rightarrow>
          let bucket = \<lparr> readB = newBucket (defReadRPS sl) (burstCap sl) now,
                          writeB = newBucket (defWriteRPS sl) (burstCap sl) now \<rparr>
          in (bucket, sl\<lparr>spaces := AList.update spaceID bucket (spaces sl)\<rparr>))"

definition nudge :: "tokenBucket \<Rightarrow> rat \<Rightarrow> rat \<Rightarrow> rat \<Rightarrow> tokenBucket" where
  "nudge b delta mn mx =
     (let r = rps b + delta;
          r = (if r < mn then mn else r);
          r = (if r > mx then mx else r)
      in b\<lparr>rps := r\<rparr>)"

definition NudgeRead :: "SpaceLimiter \<Rightarrow> int \<Rightarrow> int \<Rightarrow> rat \<Rightarrow> rat \<Rightarrow> rat \<Rightarrow> SpaceLimiter" where
  "NudgeRead sl spaceID now delta mn mx =
     (let (bucket, sl1) = get sl spaceID now
      in sl1\<lparr>spaces := AList.update spaceID (bucket\<lparr>readB := nudge (readB bucket) delta mn mx\<rparr>)
                          (spaces sl1)\<rparr>)"

definition NudgeWrite :: "SpaceLimiter \<Rightarrow> int \<Rightarrow> int \<Rightarrow> rat \<Rightarrow> rat \<Rightarrow> rat \<Rightarrow> SpaceLimiter" where
  "NudgeWrite sl spaceID now delta mn mx =
     (let (bucket, sl1) = get sl spaceID now
      in sl1\<lparr>spaces := AList.update spaceID (bucket\<lparr>writeB := nudge (writeB bucket) delta mn mx\<rparr>)
                          (spaces sl1)\<rparr>)"

text \<open>\<open>now.Sub(b.last).Seconds() * b.rps\<close>, then the refill capped at \<open>burst\<close>.\<close>

definition refillLocked :: "tokenBucket \<Rightarrow> int \<Rightarrow> tokenBucket" where
  "refillLocked b now =
     (let delta = (of_int (now - lastRefill b) / of_int Second) * rps b in
      if delta \<le> 0 then b
      else
        let t = tokens b + delta
        in b\<lparr>tokens := (if t > burst b then burst b else t), lastRefill := now\<rparr>)"

text \<open>The conversion \<open>time.Duration(x)\<close> of a float truncates towards zero.\<close>

definition truncate_duration :: "rat \<Rightarrow> int" where
  "truncate_duration x = (if 0 \<le> x then \<lfloor>x\<rfloor> else \<lceil>x\<rceil>)"

text \<open>
  The sleep that \<open>wait\<close> computes when the refilled bucket \<open>b\<close> holds less than one token.
\<close>

definition sleep_duration :: "tokenBucket \<Rightarrow> int" where
  "sleep_duration b =
     (let needed = 1 - tokens b;
          r = (if rps b \<le> 0 then 1 else rps b);
          w = truncate_duration ((needed / r) * of_int Second)
      in if w < 5 * Millisecond then 5 * Millisecond else w)"

text \<open>
  One pass through the body of the loop of \<open>tokenBucket.wait\<close>, up to the timer:
  \<open>ctx_done\<close> says whether the context is cancelled at the head of the loop and \<open>now\<close> is
  the reading of \<open>time.Now()\<close>. The pass either returns (\<open>None\<close> for \<open>nil\<close>) or goes to sleep.
  The context is not \<open>nil\<close>: every caller in the repository passes one.
\<close>

datatype wait_outcome = Return "error option" tokenBucket | SleepFor int tokenBucket

definition wait_iter :: "tokenBucket \<Rightarrow> bool \<Rightarrow> int \<Rightarrow> wait_outcome" where
  "wait_iter b ctx_done now =
     (if ctx_done then Return (Some CtxErr) b
      else
        let b1 = refillLocked b now in
        if tokens b1 \<ge> 1 then Return None (b1\<lparr>tokens := tokens b1 - 1\<rparr>)
        else SleepFor (sleep_duration b1) b1)"

text \<open>
  What the loop of \<open>wait\<close> observes in one pass: the context at the head of the loop, the
  clock, and whether the context is cancelled before the timer fires.
\<close>

record wait_obs =
  done_at_entry :: bool
  clock :: int
  done_in_sleep :: bool

text \<open>
  \<open>wait\<close> over the observations of its successive passes. The result is \<open>None\<close> when the
  call has not returned after the observed passes (it is still blocked).
\<close>

fun wait :: "tokenBucket \<Rightarrow> wait_obs list \<Rightarrow> (error option \<times> tokenBucket) option" where
  "wait b [] = None"
| "wait b (ob # obs) =
     (case wait_iter b (done_at_entry ob) (clock ob) of
        Return e b' \<Rightarrow> Some (e, b')
      | SleepFor d b' \<Rightarrow> if done_in_sleep ob then Some (Some CtxErr, b') else wait b' obs)"

definition WaitRead ::
  "SpaceLimiter \<Rightarrow> int \<Rightarrow> int \<Rightarrow> wait_obs list \<Rightarrow> (error option \<times> SpaceLimiter) option" where
  "WaitRead sl spaceID now obs =
     (let (bucket, sl1) = get sl spaceID now in
      case wait (readB bucket) obs of
        None \<Rightarrow> None
      | Some (e, b') \<Rightarrow>
          Some (e, sl1\<lparr>spaces := AList.update spaceID (bucket\<lparr>readB := b'\<rparr>) (spaces sl1)\<rparr>))"

definition WaitWrite ::
  "SpaceLimiter \<Rightarrow> int \<Rightarrow> int \<Rightarrow> wait_obs list \<Rightarrow> (error option \<times> SpaceLimiter) option" where
  "WaitWrite sl spaceID now obs =
     (let (bucket, sl1) = get sl spaceID now in
      case wait (writeB bucket) obs of
        None \<Rightarrow> None
      | Some (e, b') \<Rightarrow>
          Some (e, sl1\<lparr>spaces := AList.update spaceID (bucket\<lparr>writeB := b'\<rparr>) (spaces sl1)\<rparr>))"


section \<open>internal/storyblok: retry counters and the request loop\<close>

record RetryCounters =
  Status429 :: int
  Status5xx :: int
  Total :: int

text \<open>
  \<open>RecordRateLimit\<close> and \<open>RecordServerError\<close> on the counters found in the context;
  \<open>None\<close> is the \<open>nil\<close> that \<open>CountersFromContext\<close> returns when none are attached.
\<close>

definition RecordRateLimit :: "RetryCounters option \<Rightarrow> RetryCounters option" where
  "RecordRateLimit r =
     (case r of None \<Rightarrow> None
      | Some c \<Rightarrow> Some (c\<lparr>Status429 := Status429 c + 1, Total := Total c + 1\<rparr>))"

definition RecordServerError :: "RetryCounters option \<Rightarrow> RetryCounters option" where
  "RecordServerError r =
     (case r of None \<Rightarrow> None
      | Some c \<Rightarrow> Some (c\<lparr>Status5xx := Status5xx c + 1, Total := Total c + 1\<rparr>))"

definition IsRateLimited :: "error \<Rightarrow> bool" where
  "IsRateLimited err = (case err of APIError sc \<Rightarrow> sc = 429 | _ \<Rightarrow> False)"

text \<open>
  The fields of \<open>Client\<close> that steer \<open>do\<close>. The HTTP client, base URL and user agent only
  shape the request that is sent and are left to the environment. The limiter is a shared
  object behind a pointer; its state lives in \<open>gw_state\<close>.
\<close>

record Client =
  token :: string
  maxRetries :: int
  backoffStart :: int

definition NewClient :: "string \<Rightarrow> Client" where
  "NewClient tok = \<lparr> token = tok, maxRetries = 5, backoffStart = 250 * Millisecond \<rparr>"

definition buildAuthHeader :: "string \<Rightarrow> string" where
  "buildAuthHeader tok = (let t = trim_space tok in if t = [] then [] else t)"

record requestArgs =
  spaceID :: int
  has_payload :: bool
  has_out :: bool
  isWrite :: bool

text \<open>
  The mutable state a call of \<open>do\<close> works on: the limiter of the client (\<open>None\<close> when
  \<open>c.limiter\<close> is \<open>nil\<close>) and the retry counters attached to the context.
\<close>

record gw_state =
  limiter :: "SpaceLimiter option"
  counters :: "RetryCounters option"

text \<open>
  The outcome of \<open>httpClient.Do\<close>: a transport error, or a response with its status code
  and whether its body decodes into \<open>args.out\<close> (no error, or \<open>io.EOF\<close> for an empty body).
\<close>

datatype http_result = NoResponse | Response int bool

text \<open>
  What the environment does during one attempt: whether building the request succeeds,
  the clock and the observations of the limiter's wait, the outcome of the HTTP round
  trip, and whether the context is cancelled before the backoff timer fires.
\<close>

record attempt_env =
  request_ok :: bool
  bucket_clock :: int
  limiter_obs :: "wait_obs list"
  http :: http_result
  ctx_done_in_backoff :: bool

text \<open>The visible actions of \<open>do\<close>: a request handed to the transport, a backoff sleep.\<close>

datatype event = Sent http_result | Slept int

definition nudge_limiter :: "requestArgs \<Rightarrow> int \<Rightarrow> rat \<Rightarrow> gw_state \<Rightarrow> gw_state" where
  "nudge_limiter args now delta st =
     (case limiter st of
        None \<Rightarrow> st
      | Some sl \<Rightarrow>
          if isWrite args
          then st\<lparr>limiter := Some (NudgeWrite sl (spaceID args) now delta 1 7)\<rparr>
          else st\<lparr>limiter := Some (NudgeRead sl (spaceID args) now delta 1 7)\<rparr>)"

definition limiter_wait ::
  "requestArgs \<Rightarrow> attempt_env \<Rightarrow> gw_state \<Rightarrow> (error option \<times> gw_state) option" where
  "limiter_wait args e st =
     (case limiter st of
        None \<Rightarrow> Some (None, st)
      | Some sl \<Rightarrow>
          (case (if isWrite args
                 then WaitWrite sl (spaceID args) (bucket_clock e) (limiter_obs e)
                 else WaitRead sl (spaceID args) (bucket_clock e) (limiter_obs e)) of
             None \<Rightarrow> None
           | Some (err, sl') \<Rightarrow> Some (err, st\<lparr>limiter := Some sl'\<rparr>)))"

text \<open>
  The closure that \<open>do\<close> runs on a response. It returns the new \<open>lastErr\<close>, the new
  \<open>backoff\<close> and the new state.
\<close>

definition handle_response ::
  "requestArgs \<Rightarrow> int \<Rightarrow> int \<Rightarrow> bool \<Rightarrow> int \<Rightarrow> gw_state \<Rightarrow> error option \<times> int \<times> gw_state" where
  "handle_response args now status decodes backoff st =
     (if 200 \<le> status \<and> status < 300 then
        (if has_out args \<and> \<not> decodes then (Some DecodeError, backoff, st)
         else (None, backoff, nudge_limiter args now (2 / 100) st))
      else if IsRateLimited (APIError status) then
        (let st1 = nudge_limiter args now (- (2 / 10)) st
         in (Some (APIError status), backoff, st1\<lparr>counters := RecordRateLimit (counters st1)\<rparr>))
      else if status \<ge> 500 then
        (Some (APIError status), backoff, st\<lparr>counters := RecordServerError (counters st)\<rparr>)
      else (Some (APIError status), 0, st))"

definition terminal_client_error :: "error option \<Rightarrow> bool" where
  "terminal_client_error lastErr =
     (case lastErr of
        Some (APIError sc) \<Rightarrow> 400 \<le> sc \<and> sc < 500 \<and> sc \<noteq> 429
      | _ \<Rightarrow> False)"

text \<open>
  The loop \<open>for attempt := 0; attempt < c.maxRetries; attempt++\<close>. The first numeric
  argument counts the iterations that are left, the second is \<open>attempt\<close>. The result is
  \<open>None\<close> when the limiter never lets the call through; otherwise the returned error
  (\<open>None\<close> for \<open>nil\<close>), the final state and the trace of actions.
\<close>

fun do_attempts ::
  "Client \<Rightarrow> requestArgs \<Rightarrow> (nat \<Rightarrow> attempt_env) \<Rightarrow> nat \<Rightarrow> nat \<Rightarrow> int \<Rightarrow> error option \<Rightarrow> gw_state
     \<Rightarrow> (error option \<times> gw_state \<times> event list) option" where
  "do_attempts c args env 0 attempt backoff lastErr st = Some (lastErr, st, [])"
| "do_attempts c args env (Suc left) attempt backoff lastErr st =
     (let e = env attempt in
      if \<not> request_ok e then Some (Some RequestError, st, [])
      else if buildAuthHeader (token c) = [] then Some (Some TokenRequired, st, [])
      else
        case limiter_wait args e st of
          None \<Rightarrow> None
        | Some (Some err, st1) \<Rightarrow> Some (Some err, st1, [])
        | Some (None, st1) \<Rightarrow>
            (case http e of
               NoResponse \<Rightarrow>
                 if ctx_done_in_backoff e then Some (Some CtxErr, st1, [Sent NoResponse])
                 else
                   (case do_attempts c args env left (Suc attempt) (backoff * 2)
                           (Some TransportError) st1 of
                      None \<Rightarrow> None
                    | Some (r, st', tr) \<Rightarrow> Some (r, st', Sent NoResponse # Slept backoff # tr))
             | Response status decodes \<Rightarrow>
                 (let (lastErr', backoff', st2) =
                        handle_response args (bucket_clock e) status decodes backoff st1
                  in
                    if lastErr' = None then Some (None, st2, [Sent (Response status decodes)])
                    else if terminal_client_error lastErr'
                      then Some (lastErr', st2, [Sent (Response status decodes)])
                    else if backoff' = 0
                      then Some (lastErr', st2, [Sent (Response status decodes)])
                    else if ctx_done_in_backoff e
                      then Some (Some CtxErr, st2, [Sent (Response status decodes)])
                    else
                      (case do_attempts c args env left (Suc attempt) (backoff' * 2) lastErr' st2 of
                         None \<Rightarrow> None
                       | Some (r, st', tr) \<Rightarrow>
                           Some (r, st', Sent (Response status decodes) # Slept backoff' # tr)))))"

text \<open>
  \<open>Client.do\<close>. \<open>marshal_ok\<close> says whether \<open>json.Marshal(args.payload)\<close> succeeds.
\<close>

definition Client_do ::
  "Client \<Rightarrow> requestArgs \<Rightarrow> bool \<Rightarrow> (nat \<Rightarrow> attempt_env) \<Rightarrow> gw_state
     \<Rightarrow> (error option \<times> gw_state \<times> event list) option" where
  "Client_do c args marshal_ok env st =
     (if token c = [] then Some (Some TokenRequired, st, [])
      else if has_payload args \<and> \<not> marshal_ok then Some (Some MarshalError, st, [])
      else do_attempts c args env (nat (maxRetries c)) 0 (backoffStart c) None st)"

text \<open>Reading a trace: the requests sent, the sleeps, the 429 responses.\<close>

definition attempts_made :: "event list \<Rightarrow> nat" where
  "attempts_made tr = length (filter (\<lambda>ev. case ev of Sent r \<Rightarrow> True | Slept d \<Rightarrow> False) tr)"

definition backoff_waits :: "event list \<Rightarrow> int list" where
  "backoff_waits tr = concat (map (\<lambda>ev. case ev of Sent r \<Rightarrow> [] | Slept d \<Rightarrow> [d]) tr)"

definition rate_limited_responses :: "event list \<Rightarrow> nat" where
  "rate_limited_responses tr =
     length (filter (\<lambda>ev. case ev of Sent (Response sc d) \<Rightarrow> sc = 429 | _ \<Rightarrow> False) tr)"

text \<open>The rates of a limiter lie in the band the gateway nudges within.\<close>

definition rps_in_band :: "tokenBucket \<Rightarrow> bool" where
  "rps_in_band b = (1 \<le> rps b \<and> rps b \<le> 7)"

definition limiter_in_band :: "SpaceLimiter \<Rightarrow> bool" where
  "limiter_in_band sl =
     (1 \<le> defReadRPS sl \<and> defReadRPS sl \<le> 7 \<and> 1 \<le> defWriteRPS sl \<and> defWriteRPS sl \<le> 7
      \<and> (\<forall>bucket \<in> set (map snd (spaces sl)). rps_in_band (readB bucket) \<and> rps_in_band (writeB bucket)))"

definition state_in_band :: "gw_state \<Rightarrow> bool" where
  "state_in_band st = (case limiter st of None \<Rightarrow> True | Some sl \<Rightarrow> limiter_in_band sl)"

text \<open>An environment in which every attempt is answered with the given status.\<close>

definition always_status :: "int \<Rightarrow> nat \<Rightarrow> attempt_env" where
  "always_status sc attempt =
     \<lparr> request_ok = True, bucket_clock = 0,
       limiter_obs = [\<lparr> done_at_entry = False, clock = 0, done_in_sleep = False \<rparr>],
       http = Response sc True, ctx_done_in_backoff = False \<rparr>"

text \<open>What \<open>Run\<close> starts from: a limiter \<open>NewSpaceLimiter(7, 7, 7)\<close> and fresh counters.\<close>

definition run_state :: gw_state where
  "run_state = \<lparr> limiter = Some (NewSpaceLimiter 7 7 7),
                 counters = Some \<lparr> Status429 = 0, Status5xx = 0, Total = 0 \<rparr> \<rparr>"

text \<open>
  Concrete calls: a write request with a payload and an output, an environment that
  answers the first \<open>k\<close> attempts with 429 and the later ones with 200, the projection of
  a result to the returned error and the trace, and the state and trace that three 429
  responses followed by a 200 lead to from \<open>run_state\<close>.
\<close>

definition write_request :: requestArgs where
  "write_request = \<lparr> spaceID = 1, has_payload = True, has_out = True, isWrite = True \<rparr>"

definition throttled_then_ok :: "nat \<Rightarrow> nat \<Rightarrow> attempt_env" where
  "throttled_then_ok k attempt = always_status (if attempt < k then 429 else 200) attempt"

definition result_and_trace ::
  "(error option \<times> gw_state \<times> event list) option \<Rightarrow> (error option \<times> event list) option" where
  "result_and_trace res = (case res of None \<Rightarrow> None | Some (r, st, tr) \<Rightarrow> Some (r, tr))"

definition throttled_final :: gw_state where
  "throttled_final =
     \<lparr> limiter = Some \<lparr> spaces =
          [(1, \<lparr> readB = \<lparr> rps = 7, burst = 7, tokens = 7, lastRefill = 0 \<rparr>,
                  writeB = \<lparr> rps = 321 / 50, burst = 7, tokens = 3, lastRefill = 0 \<rparr> \<rparr>)],
          defReadRPS = 7, defWriteRPS = 7, burstCap = 7 \<rparr>,
       counters = Some \<lparr> Status429 = 3, Status5xx = 0, Total = 3 \<rparr> \<rparr>"

definition throttled_trace :: "event list" where
  "throttled_trace =
     [Sent (Response 429 True), Slept 250000000, Sent (Response 429 True),
      Slept 500000000, Sent (Response 429 True), Slept 1000000000,
      Sent (Response 200 True)]"

section \<open>internal/storyblok: the entities and their JSON form\<close>

text \<open>
  A JSON value as \<open>encoding/json\<close> decodes it into \<open>any\<close>. A Go \<open>map[string]any\<close> is an
  association list that is read with \<open>map_of\<close> and written with \<open>AList.update\<close>; a \<open>nil\<close>
  map that the source tells apart from an empty one is \<open>None\<close>.
\<close>

datatype json =
    JNull
  | JBool bool
  | JNum rat
  | JStr string
  | JArr "json list"
  | JObj "(string \<times> json) list"

type_synonym json_map = "(string \<times> json) list"

text \<open>
  The records of the package. A field name is global in a theory, so the fields of the
  smaller records carry a letter in front: \<open>t\<close> for \<open>InternalTag\<close>, \<open>p\<close> for
  \<open>ComponentPreset\<close>, \<open>g\<close> for \<open>ComponentGroup\<close>.
\<close>

record InternalTag =
  tID :: int
  tName :: string
  tObjectType :: string

record ComponentPreset =
  pID :: int
  pName :: string
  pComponentID :: int
  pPreset :: "json_map option"
  pImage :: "json option"
  pExtras :: json_map

record ComponentGroup =
  gID :: int
  gUUID :: string
  gName :: string
  gParentID :: "int option"
  gSourceUUID :: string

record Component =
  ID :: int
  Name :: string
  DisplayName :: string
  Schema :: "json_map option"
  ComponentGroupUUID :: string
  ComponentGroupName :: string
  PresetID :: int
  InternalTagsList :: "InternalTag list"
  InternalTagIDs :: "int list"
  AllPresets :: "ComponentPreset list"
  Extras :: json_map


text \<open>
  \<open>json.Marshal\<close> of a struct writes its tagged fields in order and leaves out an
  \<open>omitempty\<close> field that holds the zero value.
\<close>

definition omit_int :: "string \<Rightarrow> int \<Rightarrow> json_map" where
  "omit_int key n = (if n = 0 then [] else [(key, JNum (of_int n))])"

definition omit_string :: "string \<Rightarrow> string \<Rightarrow> json_map" where
  "omit_string key s = (if s = [] then [] else [(key, JStr s)])"

definition omit_list :: "string \<Rightarrow> json list \<Rightarrow> json_map" where
  "omit_list key xs = (if xs = [] then [] else [(key, JArr xs)])"

definition json_of_map :: "json_map option \<Rightarrow> json" where
  "json_of_map m = (case m of None \<Rightarrow> JNull | Some kvs \<Rightarrow> JObj kvs)"

definition encode_tag :: "InternalTag \<Rightarrow> json" where
  "encode_tag t =
     JObj (omit_int ''id'' (tID t) @ [(''name'', JStr (tName t))]
           @ omit_string ''object_type'' (tObjectType t))"

text \<open>\<open>for k, v := range extras { base[k] = v }\<close>\<close>

definition apply_extras :: "json_map \<Rightarrow> json_map \<Rightarrow> json_map" where
  "apply_extras extras base = fold (\<lambda>(k, v) m. AList.update k v m) extras base"


definition preset_alias_fields :: "ComponentPreset \<Rightarrow> json_map" where
  "preset_alias_fields p =
     omit_int ''id'' (pID p) @ [(''name'', JStr (pName p))]
     @ omit_int ''component_id'' (pComponentID p)
     @ [(''preset'', json_of_map (pPreset p))]
     @ (case pImage p of None \<Rightarrow> [] | Some v \<Rightarrow> [(''image'', v)])"


text \<open>
  \<open>ComponentPreset.MarshalJSON\<close>. Marshalling cannot fail on the values of type \<open>json\<close>,
  so the result is the JSON value.
\<close>

definition ComponentPreset_MarshalJSON :: "ComponentPreset \<Rightarrow> json" where
  "ComponentPreset_MarshalJSON p =
     (let data = preset_alias_fields p in
      if length (pExtras p) = 0 then JObj data
      else JObj (apply_extras (pExtras p) data))"


definition component_alias_fields :: "Component \<Rightarrow> json_map" where
  "component_alias_fields c =
     omit_int ''id'' (ID c) @ [(''name'', JStr (Name c))]
     @ omit_string ''display_name'' (DisplayName c)
     @ [(''schema'', json_of_map (Schema c))]
     @ omit_string ''component_group_uuid'' (ComponentGroupUUID c)
     @ omit_string ''component_group_name'' (ComponentGroupName c)
     @ omit_int ''preset_id'' (PresetID c)
     @ omit_list ''internal_tags_list'' (map encode_tag (InternalTagsList c))
     @ omit_list ''internal_tag_ids'' (map (\<lambda>n. JNum (of_int n)) (InternalTagIDs c))
     @ omit_list ''all_presets'' (map ComponentPreset_MarshalJSON (AllPresets c))"


definition Component_MarshalJSON :: "Component \<Rightarrow> json" where
  "Component_MarshalJSON c =
     (let data = component_alias_fields c in
      if length (Extras c) = 0 then JObj data
      else JObj (apply_extras (Extras c) data))"

text \<open>The members of a JSON object, for reading a result; nothing for other values.\<close>

definition members :: "json \<Rightarrow> string \<Rightarrow> json option" where
  "members j = (case j of JObj kvs \<Rightarrow> map_of kvs | _ \<Rightarrow> Map.empty)"









section \<open>internal/app/push: caches and schema rewriting\<close>

text \<open>
  The caches of a run. The mutexes and the single-flight groups of the structs order
  concurrent accesses and hold no data of their own; a cache is its \<open>data\<close> map.
\<close>

record groupCache =
  group_data :: "(string \<times> string) list"

record tagCache =
  tag_data :: "(string \<times> int) list"

record componentCache =
  component_data :: "(string \<times> Component) list"

definition newGroupCache :: groupCache where
  "newGroupCache = \<lparr> group_data = [] \<rparr>"

definition groupCache_Set :: "groupCache \<Rightarrow> string \<Rightarrow> string \<Rightarrow> groupCache" where
  "groupCache_Set c name uuid =
     (if name = [] \<or> uuid = [] then c
      else
        let key = to_lower (trim_space name)
        in c\<lparr>group_data := AList.update key uuid (group_data c)\<rparr>)"

text \<open>\<open>Lookup\<close> returns \<open>Some value\<close> for \<open>(value, true)\<close> and \<open>None\<close> for \<open>("", false)\<close>.\<close>

definition groupCache_Lookup :: "groupCache \<Rightarrow> string \<Rightarrow> string option" where
  "groupCache_Lookup c name = map_of (group_data c) (to_lower (trim_space name))"

definition groupCache_Has :: "groupCache \<Rightarrow> string \<Rightarrow> bool" where
  "groupCache_Has c name = (groupCache_Lookup c name \<noteq> None)"

definition whitelist_key :: string where
  "whitelist_key = ''component_group_whitelist''"

text \<open>
  The loop over the entries of one whitelist: an entry that is not a string, or is the
  empty string, is skipped; a name that the lookup resolves is replaced by the UUID, any
  other name is appended as it is.
\<close>

fun map_whitelist :: "(string \<Rightarrow> string option) \<Rightarrow> json list \<Rightarrow> json list" where
  "map_whitelist lookup [] = []"
| "map_whitelist lookup (item # rest) =
     (let val = (case item of JStr s \<Rightarrow> s | _ \<Rightarrow> []) in
      if val = [] then map_whitelist lookup rest
      else
        (case lookup val of
           Some uuid \<Rightarrow> JStr uuid # map_whitelist lookup rest
         | None \<Rightarrow> JStr val # map_whitelist lookup rest))"

text \<open>The body of the loop over the schema: one field value.\<close>

definition rewrite_field :: "(string \<Rightarrow> string option) \<Rightarrow> json \<Rightarrow> json" where
  "rewrite_field lookup val =
     (case val of
        JObj fieldMap \<Rightarrow>
          (case map_of fieldMap whitelist_key of
             Some (JArr whitelist) \<Rightarrow>
               JObj (AList.update whitelist_key (JArr (map_whitelist lookup whitelist)) fieldMap)
           | _ \<Rightarrow> val)
      | _ \<Rightarrow> val)"

text \<open>
  \<open>mapSchemaGroupWhitelist\<close> changes the schema in place and returns an error value; the
  model returns that error (\<open>None\<close> for \<open>nil\<close>) and the component after the call.
\<close>

definition mapSchemaGroupWhitelist ::
  "Component \<Rightarrow> (string \<Rightarrow> string option) \<Rightarrow> error option \<times> Component" where
  "mapSchemaGroupWhitelist component lookup =
     (case Schema component of
        None \<Rightarrow> (None, component)
      | Some schema \<Rightarrow>
          (None, component\<lparr>Schema := Some (map (\<lambda>(k, v). (k, rewrite_field lookup v)) schema)\<rparr>))"

text \<open>
  Reading a whitelist: the entries that are names (non-empty strings), and what a name
  becomes under a lookup.
\<close>

definition is_name :: "json \<Rightarrow> bool" where
  "is_name item = (case item of JStr s \<Rightarrow> s \<noteq> [] | _ \<Rightarrow> False)"

definition resolve_name :: "(string \<Rightarrow> string option) \<Rightarrow> json \<Rightarrow> json" where
  "resolve_name lookup item =
     (case item of
        JStr s \<Rightarrow> (case lookup s of Some uuid \<Rightarrow> JStr uuid | None \<Rightarrow> JStr s)
      | _ \<Rightarrow> item)"

text \<open>A concrete component with one whitelisted field, and a cache that knows one group.\<close>

definition layout_groups :: groupCache where
  "layout_groups = groupCache_Set newGroupCache ''Layout'' ''uuid-layout''"

definition body_field :: json_map where
  "body_field =
     [(''type'', JStr ''bloks''),
      (''component_group_whitelist'', JArr [JStr '' LAYOUT '', JStr ''teasers''])]"

definition page_schema :: json_map where
  "page_schema = [(''title'', JObj [(''type'', JStr ''text'')]), (''body'', JObj body_field)]"

definition page_component :: Component where
  "page_component =
     \<lparr> ID = 0, Name = ''page'', DisplayName = [], Schema = Some page_schema,
       ComponentGroupUUID = [], ComponentGroupName = [], PresetID = 0, InternalTagsList = [],
       InternalTagIDs = [], AllPresets = [], Extras = [] \<rparr>"

section \<open>internal/app/push: creating and updating a component\<close>

text \<open>
  The remote API as the push code sees it through the client: each operation takes the
  state of the remote side and returns an error or the decoded response, and the new
  state. The type \<open>'r\<close> of the remote state and the behaviour of the operations are left
  open. The requests that the push code issues are logged as \<open>api_call\<close> values.
\<close>

record 'r remote_api =
  api_CreateComponent :: "int \<Rightarrow> Component \<Rightarrow> 'r \<Rightarrow> (error + Component) \<times> 'r"
  api_UpdateComponent :: "int \<Rightarrow> int \<Rightarrow> Component \<Rightarrow> 'r \<Rightarrow> (error + Component) \<times> 'r"
  api_CreatePreset :: "int \<Rightarrow> ComponentPreset \<Rightarrow> 'r \<Rightarrow> (error + ComponentPreset) \<times> 'r"
  api_UpdatePreset :: "int \<Rightarrow> ComponentPreset \<Rightarrow> 'r \<Rightarrow> (error + ComponentPreset) \<times> 'r"
  api_CreateComponentGroup :: "int \<Rightarrow> ComponentGroup \<Rightarrow> 'r \<Rightarrow> (error + ComponentGroup) \<times> 'r"
  api_CreateInternalTag :: "int \<Rightarrow> InternalTag \<Rightarrow> 'r \<Rightarrow> (error + InternalTag) \<times> 'r"

datatype api_call =
    CallCreateComponent Component
  | CallUpdateComponent int Component
  | CallCreatePreset ComponentPreset
  | CallUpdatePreset ComponentPreset
  | CallCreateComponentGroup ComponentGroup
  | CallCreateInternalTag InternalTag


text \<open>
  \<open>Client.UpdatePreset\<close> refuses a preset without ID before any request is made.
\<close>

definition UpdatePreset ::
  "'r remote_api \<Rightarrow> int \<Rightarrow> ComponentPreset \<Rightarrow> 'r \<Rightarrow> (error + ComponentPreset) \<times> 'r \<times> api_call list" where
  "UpdatePreset api sid preset r =
     (if pID preset = 0 then (Inl PresetIDRequired, r, [])
      else
        (case api_UpdatePreset api sid preset r of
           (res, r1) \<Rightarrow> (res, r1, [CallUpdatePreset preset])))"

definition defaultPresetName :: "Component \<Rightarrow> ComponentPreset list \<Rightarrow> string" where
  "defaultPresetName component presets =
     (if PresetID component = 0 then []
      else
        (case find (\<lambda>preset. pID preset = PresetID component) presets of
           Some preset \<Rightarrow> to_lower (pName preset)
         | None \<Rightarrow> []))"

definition findPresetByName :: "ComponentPreset list \<Rightarrow> string \<Rightarrow> ComponentPreset option" where
  "findPresetByName presets name =
     (let key = to_lower name in find (\<lambda>preset. to_lower (pName preset) = key) presets)"

text \<open>The loop of \<open>createComponent\<close> over the presets.\<close>

fun create_presets ::
  "'r remote_api \<Rightarrow> int \<Rightarrow> int \<Rightarrow> ComponentPreset list \<Rightarrow> 'r
     \<Rightarrow> (error + ComponentPreset list) \<times> 'r \<times> api_call list" where
  "create_presets api sid cid [] r = (Inr [], r, [])"
| "create_presets api sid cid (preset # rest) r =
     (let preset1 = preset\<lparr>pComponentID := cid, pID := 0\<rparr> in
      case api_CreatePreset api sid preset1 r of
        (Inl e, r1) \<Rightarrow> (Inl e, r1, [CallCreatePreset preset1])
      | (Inr newPreset, r1) \<Rightarrow>
          (case create_presets api sid cid rest r1 of
             (Inl e, r2, tr) \<Rightarrow> (Inl e, r2, CallCreatePreset preset1 # tr)
           | (Inr createdPresets, r2, tr) \<Rightarrow>
               (Inr (newPreset # createdPresets), r2, CallCreatePreset preset1 # tr)))"

definition createComponent ::
  "'r remote_api \<Rightarrow> int \<Rightarrow> Component \<Rightarrow> ComponentPreset list \<Rightarrow> 'r
     \<Rightarrow> (error + Component) \<times> 'r \<times> api_call list" where
  "createComponent api sid component0 presets r =
     (let defaultName = defaultPresetName component0 presets;
          component = component0\<lparr>PresetID := 0\<rparr>
      in
      case api_CreateComponent api sid component r of
        (Inl e, r1) \<Rightarrow> (Inl e, r1, [CallCreateComponent component])
      | (Inr createdComponent, r1) \<Rightarrow>
          if length presets = 0 then (Inr createdComponent, r1, [CallCreateComponent component])
          else
            (case create_presets api sid (ID createdComponent) presets r1 of
               (Inl e, r2, tr) \<Rightarrow> (Inl e, r2, CallCreateComponent component # tr)
             | (Inr createdPresets, r2, tr) \<Rightarrow>
                 if defaultName \<noteq> [] then
                   (case findPresetByName createdPresets defaultName of
                      Some targetPreset \<Rightarrow>
                        (let cc = createdComponent\<lparr>PresetID := pID targetPreset\<rparr> in
                         case api_UpdateComponent api sid (ID cc) cc r2 of
                           (Inl e, r3) \<Rightarrow>
                             (Inl e, r3,
                              CallCreateComponent component # tr @ [CallUpdateComponent (ID cc) cc])
                         | (Inr updatedComponent, r3) \<Rightarrow>
                             (Inr updatedComponent, r3,
                              CallCreateComponent component # tr @ [CallUpdateComponent (ID cc) cc]))
                    | None \<Rightarrow> (Inr createdComponent, r2, CallCreateComponent component # tr))
                 else (Inr createdComponent, r2, CallCreateComponent component # tr)))"

text \<open>
  The table \<open>existingPresets\<close> of \<open>updateComponent\<close>: the presets of the target space that
  belong to the existing component, by lower-cased name, a later one replacing an
  earlier one of the same name.
\<close>

definition existing_presets ::
  "Component \<Rightarrow> ComponentPreset list \<Rightarrow> (string \<times> ComponentPreset) list" where
  "existing_presets existing targetPresets =
     fold (\<lambda>preset m.
             if pComponentID preset = ID existing
             then AList.update (to_lower (pName preset)) preset m else m)
          targetPresets []"

text \<open>The loop of \<open>updateComponent\<close> over the presets, carrying the table.\<close>

fun sync_presets ::
  "'r remote_api \<Rightarrow> int \<Rightarrow> int \<Rightarrow> ComponentPreset list \<Rightarrow> (string \<times> ComponentPreset) list \<Rightarrow> 'r
     \<Rightarrow> (error + (string \<times> ComponentPreset) list) \<times> 'r \<times> api_call list" where
  "sync_presets api sid eid [] existingPresets r = (Inr existingPresets, r, [])"
| "sync_presets api sid eid (preset0 # rest) existingPresets r =
     (let key = to_lower (pName preset0);
          preset = preset0\<lparr>pComponentID := eid\<rparr>
      in
      case map_of existingPresets key of
        Some existingPreset \<Rightarrow>
          (let preset1 = preset\<lparr>pID := pID existingPreset\<rparr> in
           case UpdatePreset api sid preset1 r of
             (Inl e, r1, calls) \<Rightarrow> (Inl e, r1, calls)
           | (Inr updatedPreset, r1, calls) \<Rightarrow>
               (case sync_presets api sid eid rest (AList.update key updatedPreset existingPresets) r1 of
                  (res, r2, tr) \<Rightarrow> (res, r2, calls @ tr)))
      | None \<Rightarrow>
          (let preset1 = preset\<lparr>pID := 0\<rparr> in
           case api_CreatePreset api sid preset1 r of
             (Inl e, r1) \<Rightarrow> (Inl e, r1, [CallCreatePreset preset1])
           | (Inr createdPreset, r1) \<Rightarrow>
               (case sync_presets api sid eid rest (AList.update key createdPreset existingPresets) r1 of
                  (res, r2, tr) \<Rightarrow> (res, r2, CallCreatePreset preset1 # tr))))"

definition updateComponent ::
  "'r remote_api \<Rightarrow> int \<Rightarrow> Component \<Rightarrow> Component \<Rightarrow> ComponentPreset list \<Rightarrow> ComponentPreset list \<Rightarrow> 'r
     \<Rightarrow> (error + Component) \<times> 'r \<times> api_call list" where
  "updateComponent api sid existing updated0 presets targetPresets r =
     (let defaultName = defaultPresetName updated0 presets;
          updated = updated0\<lparr>ID := ID existing, PresetID := 0\<rparr>
      in
      case api_UpdateComponent api sid (ID existing) updated r of
        (Inl e, r1) \<Rightarrow> (Inl e, r1, [CallUpdateComponent (ID existing) updated])
      | (Inr resultComponent, r1) \<Rightarrow>
          (case sync_presets api sid (ID existing) presets
                  (existing_presets existing targetPresets) r1 of
             (Inl e, r2, tr) \<Rightarrow> (Inl e, r2, CallUpdateComponent (ID existing) updated # tr)
           | (Inr existingPresets, r2, tr) \<Rightarrow>
               if defaultName \<noteq> [] then
                 (case map_of existingPresets defaultName of
                    Some targetPreset \<Rightarrow>
                      if pID targetPreset \<noteq> PresetID existing then
                        (let updated1 = updated\<lparr>PresetID := pID targetPreset\<rparr> in
                         case api_UpdateComponent api sid (ID existing) updated1 r2 of
                           (Inl e, r3) \<Rightarrow>
                             (Inl e, r3,
                              CallUpdateComponent (ID existing) updated # tr
                                @ [CallUpdateComponent (ID existing) updated1])
                         | (Inr refreshed, r3) \<Rightarrow>
                             (Inr refreshed, r3,
                              CallUpdateComponent (ID existing) updated # tr
                                @ [CallUpdateComponent (ID existing) updated1]))
                      else (Inr resultComponent, r2, CallUpdateComponent (ID existing) updated # tr)
                  | None \<Rightarrow> (Inr resultComponent, r2, CallUpdateComponent (ID existing) updated # tr))
               else (Inr resultComponent, r2, CallUpdateComponent (ID existing) updated # tr)))"

text \<open>
  A remote side for concrete calls. Its state is the next free ID: creating an entity
  returns what was sent with a fresh ID, updating returns what was sent.
\<close>

definition echo_api :: "int remote_api" where
  "echo_api =
     \<lparr> api_CreateComponent = (\<lambda>sid c n. (Inr (c\<lparr>ID := n\<rparr>), n + 1)),
       api_UpdateComponent = (\<lambda>sid cid c n. (Inr c, n)),
       api_CreatePreset = (\<lambda>sid p n. (Inr (p\<lparr>pID := n\<rparr>), n + 1)),
       api_UpdatePreset = (\<lambda>sid p n. (Inr p, n)),
       api_CreateComponentGroup = (\<lambda>sid g n. (Inr (g\<lparr>gID := n, gUUID := ''uuid-'' @ gName g\<rparr>), n + 1)),
       api_CreateInternalTag = (\<lambda>sid t n. (Inr (t\<lparr>tID := n\<rparr>), n + 1)) \<rparr>"

text \<open>
  A local component \<open>hero\<close> that names its local preset 11 as default, that preset, and
  their counterparts in the target space: component 100 and preset 201.
\<close>

definition hero_local :: Component where
  "hero_local =
     \<lparr> ID = 5, Name = ''hero'', DisplayName = [], Schema = Some [], ComponentGroupUUID = [],
       ComponentGroupName = [], PresetID = 11, InternalTagsList = [], InternalTagIDs = [],
       AllPresets = [], Extras = [] \<rparr>"










section \<open>internal/app/push: processing one plan\<close>

definition newTagCache :: tagCache where
  "newTagCache = \<lparr> tag_data = [] \<rparr>"

definition tagCache_Set :: "tagCache \<Rightarrow> string \<Rightarrow> int \<Rightarrow> tagCache" where
  "tagCache_Set c name n =
     (if name = [] \<or> n \<le> 0 then c
      else
        let key = trim_space name in
        if key = [] then c else c\<lparr>tag_data := AList.update key n (tag_data c)\<rparr>)"

definition tagCache_Get :: "tagCache \<Rightarrow> string \<Rightarrow> int option" where
  "tagCache_Get c name =
     (let key = trim_space name in if key = [] then None else map_of (tag_data c) key)"

definition tagCache_Has :: "tagCache \<Rightarrow> string \<Rightarrow> bool" where
  "tagCache_Has c name = (tagCache_Get c name \<noteq> None)"

definition newComponentCache :: componentCache where
  "newComponentCache = \<lparr> component_data = [] \<rparr>"

definition componentCache_Set :: "componentCache \<Rightarrow> string \<Rightarrow> Component \<Rightarrow> componentCache" where
  "componentCache_Set c name component =
     (let key = to_lower (trim_space name) in
      if key = [] then c else c\<lparr>component_data := AList.update key component (component_data c)\<rparr>)"


definition componentCache_Replace ::
  "componentCache \<Rightarrow> string \<Rightarrow> string \<Rightarrow> Component \<Rightarrow> componentCache" where
  "componentCache_Replace c oldName newName component =
     (let oldKey = to_lower (trim_space oldName);
          newKey = to_lower (trim_space newName);
          d1 = (if oldKey \<noteq> [] then AList.delete oldKey (component_data c) else component_data c);
          d2 = (if newKey \<noteq> [] then AList.update newKey component d1 else d1)
      in c\<lparr>component_data := d2\<rparr>)"

text \<open>The zero value \<open>Component{}\<close>.\<close>

definition zero_component :: Component where
  "zero_component =
     \<lparr> ID = 0, Name = [], DisplayName = [], Schema = None, ComponentGroupUUID = [],
       ComponentGroupName = [], PresetID = 0, InternalTagsList = [], InternalTagIDs = [],
       AllPresets = [], Extras = [] \<rparr>"

record componentPlan =
  plan_index :: nat
  plan_component :: Component
  plan_existing :: Component
  plan_exists :: bool
  plan_presets :: "ComponentPreset list"

record componentOutcome =
  out_index :: nat
  out_name :: string
  out_componentID :: int
  out_presets :: int
  out_created :: bool
  out_updated :: bool

text \<open>
  The caches and the preset list a \<open>componentProcessor\<close> points to. The caches are shared
  and change while plans are processed; the functions below take and return them.
\<close>

record componentProcessor =
  proc_spaceID :: int
  proc_groups :: groupCache
  proc_tags :: tagCache
  proc_components :: componentCache
  proc_targetPresets :: "ComponentPreset list"

text \<open>
  \<open>ensureComponentGroup\<close> for one caller at a time: \<open>single.Do\<close> then runs its function
  at once, and the second lookup inside it sees what the first one saw.
\<close>

definition ensureComponentGroup ::
  "'r remote_api \<Rightarrow> int \<Rightarrow> groupCache \<Rightarrow> string \<Rightarrow> 'r
     \<Rightarrow> (error + string) \<times> groupCache \<times> 'r \<times> api_call list" where
  "ensureComponentGroup api sid groups groupName r =
     (if groupName = [] then (Inr [], groups, r, [])
      else
        (case groupCache_Lookup groups groupName of
           Some uuid \<Rightarrow> (Inr uuid, groups, r, [])
         | None \<Rightarrow>
             (let key = to_lower (trim_space groupName) in
              if key = [] then (Inr [], groups, r, [])
              else
                (let request = \<lparr> gID = 0, gUUID = [], gName = groupName, gParentID = None,
                                 gSourceUUID = [] \<rparr>
                 in
                 case api_CreateComponentGroup api sid request r of
                   (Inl e, r1) \<Rightarrow> (Inl e, groups, r1, [CallCreateComponentGroup request])
                 | (Inr created, r1) \<Rightarrow>
                     (Inr (gUUID created), groupCache_Set groups groupName (gUUID created), r1,
                      [CallCreateComponentGroup request])))))"

fun ensure_tags ::
  "'r remote_api \<Rightarrow> int \<Rightarrow> InternalTag list \<Rightarrow> tagCache \<Rightarrow> 'r
     \<Rightarrow> (error + int list) \<times> tagCache \<times> 'r \<times> api_call list" where
  "ensure_tags api sid [] tags r = (Inr [], tags, r, [])"
| "ensure_tags api sid (tag # rest) tags r =
     (let name = trim_space (tName tag) in
      if name = [] then ensure_tags api sid rest tags r
      else
        (case tagCache_Get tags name of
           Some n \<Rightarrow>
             (case ensure_tags api sid rest tags r of
                (Inl e, tags', r', tr) \<Rightarrow> (Inl e, tags', r', tr)
              | (Inr ids, tags', r', tr) \<Rightarrow> (Inr (n # ids), tags', r', tr))
         | None \<Rightarrow>
             (let request = \<lparr> tID = 0, tName = name, tObjectType = ''component'' \<rparr> in
              case api_CreateInternalTag api sid request r of
                (Inl e, r1) \<Rightarrow> (Inl e, tags, r1, [CallCreateInternalTag request])
              | (Inr created, r1) \<Rightarrow>
                  (case ensure_tags api sid rest (tagCache_Set tags name (tID created)) r1 of
                     (Inl e, tags', r', tr) \<Rightarrow> (Inl e, tags', r', CallCreateInternalTag request # tr)
                   | (Inr ids, tags', r', tr) \<Rightarrow>
                       (Inr (tID created # ids), tags', r', CallCreateInternalTag request # tr)))))"

definition ensureInternalTags ::
  "'r remote_api \<Rightarrow> int \<Rightarrow> tagCache \<Rightarrow> InternalTag list \<Rightarrow> 'r
     \<Rightarrow> (error + int list) \<times> tagCache \<times> 'r \<times> api_call list" where
  "ensureInternalTags api sid tags source r =
     (if length source = 0 then (Inr [], tags, r, []) else ensure_tags api sid source tags r)"

text \<open>
  \<open>componentProcessor.Process\<close> for one plan, run on its own. It returns the outcome or
  the error, the processor with the caches as they are afterwards, the remote state and
  the requests issued. \<open>strings.EqualFold\<close> is equality of the lower-cased names.
\<close>

definition Process ::
  "'r remote_api \<Rightarrow> componentProcessor \<Rightarrow> componentPlan \<Rightarrow> 'r
     \<Rightarrow> (error + componentOutcome) \<times> componentProcessor \<times> 'r \<times> api_call list" where
  "Process api p plan r =
     (case (if ComponentGroupName (plan_component plan) \<noteq> []
            then (case ensureComponentGroup api (proc_spaceID p) (proc_groups p)
                         (ComponentGroupName (plan_component plan)) r of
                    (Inl e, g, r1, tr) \<Rightarrow> (Inl e, g, r1, tr)
                  | (Inr uuid, g, r1, tr) \<Rightarrow>
                      (Inr ((plan_component plan)
                              \<lparr>ComponentGroupUUID := uuid, ComponentGroupName := []\<rparr>), g, r1, tr))
            else (Inr (plan_component plan), proc_groups p, r, [])) of
        (Inl e, g, r1, tr1) \<Rightarrow> (Inl e, p\<lparr>proc_groups := g\<rparr>, r1, tr1)
      | (Inr component1, g, r1, tr1) \<Rightarrow>
          (case mapSchemaGroupWhitelist component1 (groupCache_Lookup g) of
             (Some e, component2) \<Rightarrow> (Inl e, p\<lparr>proc_groups := g\<rparr>, r1, tr1)
           | (None, component2) \<Rightarrow>
               (case ensureInternalTags api (proc_spaceID p) (proc_tags p)
                       (InternalTagsList component2) r1 of
                  (Inl e, t, r2, tr2) \<Rightarrow> (Inl e, p\<lparr>proc_groups := g, proc_tags := t\<rparr>, r2, tr1 @ tr2)
                | (Inr tagIDs, t, r2, tr2) \<Rightarrow>
                    (let component = component2\<lparr>InternalTagIDs := tagIDs\<rparr>;
                         p1 = p\<lparr>proc_groups := g, proc_tags := t\<rparr>;
                         outcome = \<lparr> out_index = plan_index plan, out_name = Name component,
                                     out_componentID = 0, out_presets = int (length (plan_presets plan)),
                                     out_created = False, out_updated = False \<rparr>
                     in
                     if plan_exists plan then
                       (case updateComponent api (proc_spaceID p) (plan_existing plan) component
                               (plan_presets plan) (proc_targetPresets p) r2 of
                          (Inl e, r3, tr3) \<Rightarrow> (Inl e, p1, r3, tr1 @ tr2 @ tr3)
                        | (Inr updatedComp, r3, tr3) \<Rightarrow>
                            (Inr (outcome\<lparr>out_updated := True, out_name := Name updatedComp,
                                          out_componentID := ID updatedComp\<rparr>),
                             p1\<lparr>proc_components :=
                                  (if to_lower (Name (plan_existing plan)) \<noteq> to_lower (Name updatedComp)
                                   then componentCache_Replace (proc_components p1)
                                          (Name (plan_existing plan)) (Name updatedComp) updatedComp
                                   else componentCache_Set (proc_components p1)
                                          (Name updatedComp) updatedComp)\<rparr>,
                             r3, tr1 @ tr2 @ tr3))
                     else
                       (case createComponent api (proc_spaceID p) component (plan_presets plan) r2 of
                          (Inl e, r3, tr3) \<Rightarrow> (Inl e, p1, r3, tr1 @ tr2 @ tr3)
                        | (Inr createdComp, r3, tr3) \<Rightarrow>
                            (Inr (outcome\<lparr>out_created := True, out_name := Name createdComp,
                                          out_componentID := ID createdComp\<rparr>),
                             p1\<lparr>proc_components :=
                                  componentCache_Set (proc_components p1) (Name createdComp) createdComp\<rparr>,
                             r3, tr1 @ tr2 @ tr3))))))"

section \<open>internal/app/push: Run\<close>




record PresetFile =
  pfPath :: string
  pfPreset :: ComponentPreset

















text \<open>
  A concrete run: the directory holds the component \<open>hero\<close>, the selectors are \<open>hero\<close> and
  \<open>missing-one\<close>, the target space is empty, and every plan is processed with success.
\<close>

definition named_outcome :: "componentProcessor \<Rightarrow> componentPlan \<Rightarrow> error + componentOutcome" where
  "named_outcome processor plan =
     Inr \<lparr> out_index = plan_index plan, out_name = Name (plan_component plan),
           out_componentID = 300, out_presets = int (length (plan_presets plan)),
           out_created = (\<not> plan_exists plan), out_updated = plan_exists plan \<rparr>"





section \<open>Properties of internal/matcher\<close>

lemma to_lower_idem: "to_lower (to_lower s) = to_lower s"
  by (simp add: to_lower_def lower_char_def Let_def)

lemma ValidateMode_valid:
  "to_lower mode \<in> set validModes \<Longrightarrow> ValidateMode (to_lower mode) = None"
  by (simp add: ValidateMode_def to_lower_idem)

text \<open>
  The outer loop only appends to \<open>selected\<close>, takes the appended items from the input in
  input order, and never appends a name that is already in \<open>seen\<close>.
\<close>

lemma filter_items_selected:
  "filter_items gm mode nameFn sels items (selected, hit, seen) = (selected', hit', seen') \<Longrightarrow>
   set (map nameFn selected) \<subseteq> set seen \<Longrightarrow> distinct (map nameFn selected) \<Longrightarrow>
   (\<exists>ys. selected' = selected @ ys \<and> subseq ys items) \<and> distinct (map nameFn selected')"
proof (induction items arbitrary: selected hit seen)
  case Nil
  then show ?case by simp
next
  case (Cons item items)
  obtain h m where sc: "scan_selectors gm mode (to_lower (nameFn item)) sels 0 (hit, False) = (h, m)"
    by (cases "scan_selectors gm mode (to_lower (nameFn item)) sels 0 (hit, False)")
  show ?case
  proof (cases "m \<and> nameFn item \<notin> set seen")
    case True
    with Cons.prems(1) sc have
      run: "filter_items gm mode nameFn sels items (selected @ [item], h, nameFn item # seen)
            = (selected', hit', seen')"
      by (simp add: Let_def)
    have sub: "set (map nameFn (selected @ [item])) \<subseteq> set (nameFn item # seen)"
      using Cons.prems(2) by auto
    have dis: "distinct (map nameFn (selected @ [item]))"
      using Cons.prems(2,3) True by auto
    from Cons.IH [OF run sub dis] obtain ys where
      ys: "selected' = (selected @ [item]) @ ys" "subseq ys items"
      and d: "distinct (map nameFn selected')" by blast
    have "selected' = selected @ (item # ys)" using ys(1) by simp
    moreover have "subseq (item # ys) (item # items)" using ys(2) by simp
    ultimately show ?thesis using d by blast
  next
    case False
    with Cons.prems(1) sc have
      run: "filter_items gm mode nameFn sels items (selected, h, seen) = (selected', hit', seen')"
      by (auto simp add: Let_def)
    from Cons.IH [OF run Cons.prems(2,3)] obtain ys where
      ys: "selected' = selected @ ys" "subseq ys items"
      and d: "distinct (map nameFn selected')" by blast
    have "subseq ys (item # items)" using ys(2) by (rule list_emb_Cons)
    then show ?thesis using ys(1) d by blast
  qed
qed

text \<open>
  C10, for a valid mode. For a call whose mode is one of exact, prefix or glob in any letter
  case: with \<open>all = true\<close> the selection is the whole input list in input order and the
  missing list is empty, whatever the selectors are; with \<open>all = false\<close> a returned
  selection is a subsequence of the input (every input position is taken at most once and
  the input order is kept) and no two selected items carry the same name.
\<close>

theorem Filter_selection:
  assumes "to_lower mode \<in> set validModes"
  shows "(all \<longrightarrow> Filter gm items nameFn selectors mode all = Inr (items, []))
       \<and> (\<not> all \<longrightarrow> (\<forall>selected missing.
             Filter gm items nameFn selectors mode all = Inr (selected, missing) \<longrightarrow>
             subseq selected items \<and> distinct (map nameFn selected)))"
proof (intro conjI impI allI)
  assume all
  then show "Filter gm items nameFn selectors mode all = Inr (items, [])"
    using assms by (simp add: Filter_def Let_def ValidateMode_valid)
next
  fix selected missing
  assume na: "\<not> all" and F: "Filter gm items nameFn selectors mode all = Inr (selected, missing)"
  let ?ns = "map (\<lambda>s. to_lower (trim_space s)) selectors"
  obtain s h sn where fi:
    "filter_items gm (to_lower mode) nameFn ?ns items ([], replicate (length ?ns) False, []) = (s, h, sn)"
    by (cases "filter_items gm (to_lower mode) nameFn ?ns items ([], replicate (length ?ns) False, [])")
  from F na assms fi have "selected = s"
    by (auto simp add: Filter_def Let_def ValidateMode_valid split: if_splits)
  moreover from filter_items_selected [OF fi] have "subseq s items \<and> distinct (map nameFn s)"
    by auto
  ultimately show "subseq selected items" and "distinct (map nameFn selected)" by simp_all
qed

theorem Filter_selection_witness:
  "to_lower ''Prefix'' \<in> set validModes
   \<and> Filter glob_never [''Hero'', ''teaser'', ''hero'', ''Hero''] id [''hero'', ''HE'', ''zz''] ''Prefix'' True
       = Inr ([''Hero'', ''teaser'', ''hero'', ''Hero''], [])
   \<and> Filter glob_never [''Hero'', ''teaser'', ''hero'', ''Hero''] id [''hero'', ''HE'', ''zz''] ''Prefix'' False
       = Inr ([''Hero'', ''hero''], [''zz''])
   \<and> subseq [''Hero'', ''hero''] [''Hero'', ''teaser'', ''hero'', ''Hero'']
   \<and> distinct (map id [''Hero'', ''hero''])"
proof -
  have h: "to_lower ''Prefix'' \<in> set validModes"
    by code_simp
  have F: "Filter glob_never [''Hero'', ''teaser'', ''hero'', ''Hero''] id [''hero'', ''HE'', ''zz'']
             ''Prefix'' False = Inr ([''Hero'', ''hero''], [''zz''])"
    by code_simp
  from Filter_selection [OF h, of True glob_never "[''Hero'', ''teaser'', ''hero'', ''Hero'']" id
        "[''hero'', ''HE'', ''zz'']"]
  have T: "Filter glob_never [''Hero'', ''teaser'', ''hero'', ''Hero''] id [''hero'', ''HE'', ''zz'']
             ''Prefix'' True = Inr ([''Hero'', ''teaser'', ''hero'', ''Hero''], [])"
    by simp
  from Filter_selection [OF h, of False glob_never "[''Hero'', ''teaser'', ''hero'', ''Hero'']" id
        "[''hero'', ''HE'', ''zz'']"] F
  have S: "subseq [''Hero'', ''hero''] [''Hero'', ''teaser'', ''hero'', ''Hero'']
           \<and> distinct (map id [''Hero'', ''hero''])"
    by blast
  from h T F S show ?thesis by blast
qed

text \<open>
  C10 needs the valid mode: the mode is validated before \<open>all\<close> is looked at, so a call
  with \<open>all = true\<close> and an unsupported mode returns an error and no selection.
\<close>

theorem Filter_all_invalid_mode_counterexample:
  "Filter glob_never [''hero''] id [''hero''] ''fuzzy'' True = Inl (InvalidMode ''fuzzy'')
   \<and> Filter glob_never [''hero''] id [''hero''] ''fuzzy'' True \<noteq> Inr ([''hero''], [])"
  by code_simp

section \<open>Properties of the token bucket\<close>










section \<open>Properties of the request loop\<close>

text \<open>The ways in which one iteration of the loop of \<open>do\<close> can end or go on.\<close>

lemma do_attempts_Suc_cases:
  assumes "do_attempts c args env (Suc left) attempt backoff lastErr st = Some (r, st', tr)"
  obtains
    (early) "tr = []" "st' = st"
  | (throttle_err) err where "tr = []" "limiter_wait args (env attempt) st = Some (Some err, st')"
  | (transport_cancel) "limiter_wait args (env attempt) st = Some (None, st')"
      "http (env attempt) = NoResponse" "tr = [Sent NoResponse]" "r = Some CtxErr"
  | (transport_retry) st1 tr' where "limiter_wait args (env attempt) st = Some (None, st1)"
      "http (env attempt) = NoResponse"
      "do_attempts c args env left (Suc attempt) (backoff * 2) (Some TransportError) st1 = Some (r, st', tr')"
      "tr = Sent NoResponse # Slept backoff # tr'"
  | (final) st1 status decodes le bo where "limiter_wait args (env attempt) st = Some (None, st1)"
      "http (env attempt) = Response status decodes"
      "handle_response args (bucket_clock (env attempt)) status decodes backoff st1 = (le, bo, st')"
      "tr = [Sent (Response status decodes)]"
      "r = le \<or> (r = Some CtxErr \<and> le \<noteq> None \<and> \<not> terminal_client_error le)"
  | (retry) st1 status decodes le bo st2 tr' where "limiter_wait args (env attempt) st = Some (None, st1)"
      "http (env attempt) = Response status decodes"
      "handle_response args (bucket_clock (env attempt)) status decodes backoff st1 = (le, bo, st2)"
      "le \<noteq> None" "\<not> terminal_client_error le" "bo \<noteq> 0"
      "do_attempts c args env left (Suc attempt) (bo * 2) le st2 = Some (r, st', tr')"
      "tr = Sent (Response status decodes) # Slept bo # tr'"
proof -
  let ?e = "env attempt"
  show ?thesis
  proof (cases "\<not> request_ok ?e \<or> buildAuthHeader (token c) = []")
    case True
    with assms have "tr = []" "st' = st" by (auto simp add: Let_def split: if_splits)
    then show ?thesis by (rule early)
  next
    case ok: False
    show ?thesis
    proof (cases "limiter_wait args ?e st")
      case None
      with assms ok show ?thesis by (simp add: Let_def)
    next
      case (Some p)
      obtain werr st1 where p: "p = (werr, st1)" by (cases p)
      show ?thesis
      proof (cases werr)
        case (Some err)
        with assms ok \<open>limiter_wait args ?e st = Some p\<close> p
        have "tr = []" "limiter_wait args ?e st = Some (Some err, st')"
          by (simp_all add: Let_def)
        then show ?thesis by (rule throttle_err)
      next
        case None
        with \<open>limiter_wait args ?e st = Some p\<close> p
        have lw: "limiter_wait args ?e st = Some (None, st1)" by simp
        show ?thesis
        proof (cases "http ?e")
          case NoResponse
          show ?thesis
          proof (cases "ctx_done_in_backoff ?e")
            case True
            with assms ok lw NoResponse show ?thesis
              by (intro transport_cancel) (simp_all add: Let_def)
          next
            case False
            with assms ok lw NoResponse obtain tr' where
              "do_attempts c args env left (Suc attempt) (backoff * 2) (Some TransportError) st1
                 = Some (r, st', tr')" "tr = Sent NoResponse # Slept backoff # tr'"
              by (auto simp add: Let_def split: option.splits)
            with lw NoResponse show ?thesis by (intro transport_retry)
          qed
        next
          case (Response status decodes)
          obtain le bo st2 where
            hr: "handle_response args (bucket_clock ?e) status decodes backoff st1 = (le, bo, st2)"
            by (cases "handle_response args (bucket_clock ?e) status decodes backoff st1")
          show ?thesis
          proof (cases "le = None \<or> terminal_client_error le \<or> bo = 0 \<or> ctx_done_in_backoff ?e")
            case True
            with assms ok lw Response hr
            have "st' = st2" "tr = [Sent (Response status decodes)]"
              "r = le \<or> (r = Some CtxErr \<and> le \<noteq> None \<and> \<not> terminal_client_error le)"
              by (auto simp add: Let_def split: if_splits)
            with lw Response hr show ?thesis by (intro final) simp_all
          next
            case False
            with assms ok lw Response hr obtain tr' where
              "do_attempts c args env left (Suc attempt) (bo * 2) le st2 = Some (r, st', tr')"
              "tr = Sent (Response status decodes) # Slept bo # tr'"
              by (auto simp add: Let_def split: option.splits)
            with False lw Response hr show ?thesis by (intro retry) simp_all
          qed
        qed
      qed
    qed
  qed
qed

lemma update_snd:
  "(a, x) \<in> set (AList.update k v al) \<Longrightarrow> x = v \<or> (a, x) \<in> set al"
  by (induction al) (auto split: if_splits)

lemma map_of_snd: "map_of al k = Some v \<Longrightarrow> v \<in> set (map snd al)"
  by (induction al) (auto split: if_splits)

lemma newBucket_band: "1 \<le> r \<Longrightarrow> r \<le> 7 \<Longrightarrow> rps_in_band (newBucket r b now)"
  by (simp add: rps_in_band_def newBucket_def)

lemma store_band:
  assumes "limiter_in_band sl" "rps_in_band (readB bucket)" "rps_in_band (writeB bucket)"
  shows "limiter_in_band (sl\<lparr>spaces := AList.update k bucket (spaces sl)\<rparr>)"
  using assms by (fastforce simp add: limiter_in_band_def dest!: update_snd)

lemma get_band:
  assumes "limiter_in_band sl" "get sl k now = (bucket, sl1)"
  shows "limiter_in_band sl1 \<and> rps_in_band (readB bucket) \<and> rps_in_band (writeB bucket)"
proof (cases "map_of (spaces sl) k")
  case None
  let ?fresh = "\<lparr> readB = newBucket (defReadRPS sl) (burstCap sl) now,
                   writeB = newBucket (defWriteRPS sl) (burstCap sl) now \<rparr>"
  from None assms(2) have b: "bucket = ?fresh"
    by (auto simp add: get_def Let_def)
  from None assms(2) have s: "sl1 = sl\<lparr>spaces := AList.update k ?fresh (spaces sl)\<rparr>"
    by (auto simp add: get_def Let_def)
  have r: "rps_in_band (readB ?fresh)" and w: "rps_in_band (writeB ?fresh)"
    using assms(1) by (simp_all add: limiter_in_band_def newBucket_band)
  from store_band [OF assms(1) r w] r w b s show ?thesis by simp
next
  case (Some found)
  with assms(2) have "bucket = found" "sl1 = sl" by (simp_all add: get_def)
  moreover from Some have "found \<in> set (map snd (spaces sl))" by (rule map_of_snd)
  ultimately show ?thesis using assms(1) by (auto simp add: limiter_in_band_def)
qed

lemma refill_rps: "rps (refillLocked b now) = rps b"
  by (simp add: refillLocked_def Let_def)

lemma wait_rps: "wait b obs = Some (e, b') \<Longrightarrow> rps b' = rps b"
proof (induction obs arbitrary: b)
  case Nil
  then show ?case by simp
next
  case (Cons ob obs)
  show ?case
  proof (cases "done_at_entry ob")
    case True
    with Cons.prems show ?thesis by (simp add: wait_iter_def)
  next
    case False
    show ?thesis
    proof (cases "tokens (refillLocked b (clock ob)) \<ge> 1")
      case True
      with False Cons.prems show ?thesis
        by (auto simp add: wait_iter_def Let_def refill_rps)
    next
      case low: False
      show ?thesis
      proof (cases "done_in_sleep ob")
        case True
        with False low Cons.prems show ?thesis
          by (auto simp add: wait_iter_def Let_def refill_rps)
      next
        case awake: False
        with False low Cons.prems have "wait (refillLocked b (clock ob)) obs = Some (e, b')"
          by (simp add: wait_iter_def Let_def)
        from Cons.IH [OF this] show ?thesis by (simp add: refill_rps)
      qed
    qed
  qed
qed

lemma nudge_clamp: "nudge b delta mn mx = b\<lparr>rps := min mx (max mn (rps b + delta))\<rparr>"
  by (simp add: nudge_def Let_def min_def max_def)

lemma nudge_band: "rps_in_band (nudge b delta 1 7)"
  by (simp add: nudge_clamp rps_in_band_def)

lemma NudgeRead_band: "limiter_in_band sl \<Longrightarrow> limiter_in_band (NudgeRead sl k now delta 1 7)"
proof -
  assume a: "limiter_in_band sl"
  obtain bucket sl1 where g: "get sl k now = (bucket, sl1)" by (cases "get sl k now")
  from get_band [OF a g] have "limiter_in_band sl1" "rps_in_band (writeB bucket)" by simp_all
  then have "limiter_in_band (sl1\<lparr>spaces := AList.update k
      (bucket\<lparr>readB := nudge (readB bucket) delta 1 7\<rparr>) (spaces sl1)\<rparr>)"
    by (intro store_band) (simp_all add: nudge_band)
  with g show ?thesis by (simp add: NudgeRead_def)
qed

lemma NudgeWrite_band: "limiter_in_band sl \<Longrightarrow> limiter_in_band (NudgeWrite sl k now delta 1 7)"
proof -
  assume a: "limiter_in_band sl"
  obtain bucket sl1 where g: "get sl k now = (bucket, sl1)" by (cases "get sl k now")
  from get_band [OF a g] have "limiter_in_band sl1" "rps_in_band (readB bucket)" by simp_all
  then have "limiter_in_band (sl1\<lparr>spaces := AList.update k
      (bucket\<lparr>writeB := nudge (writeB bucket) delta 1 7\<rparr>) (spaces sl1)\<rparr>)"
    by (intro store_band) (simp_all add: nudge_band)
  with g show ?thesis by (simp add: NudgeWrite_def)
qed

lemma WaitRead_band:
  assumes "limiter_in_band sl" "WaitRead sl k now obs = Some (e, sl')"
  shows "limiter_in_band sl'"
proof -
  obtain bucket sl1 where g: "get sl k now = (bucket, sl1)" by (cases "get sl k now")
  from assms(2) g obtain b' where w: "wait (readB bucket) obs = Some (e, b')"
    and s: "sl' = sl1\<lparr>spaces := AList.update k (bucket\<lparr>readB := b'\<rparr>) (spaces sl1)\<rparr>"
    by (auto simp add: WaitRead_def split: option.splits)
  from get_band [OF assms(1) g] wait_rps [OF w]
  have "limiter_in_band sl1" "rps_in_band (readB (bucket\<lparr>readB := b'\<rparr>))"
    "rps_in_band (writeB (bucket\<lparr>readB := b'\<rparr>))"
    by (simp_all add: rps_in_band_def)
  then show ?thesis unfolding s by (rule store_band)
qed

lemma WaitWrite_band:
  assumes "limiter_in_band sl" "WaitWrite sl k now obs = Some (e, sl')"
  shows "limiter_in_band sl'"
proof -
  obtain bucket sl1 where g: "get sl k now = (bucket, sl1)" by (cases "get sl k now")
  from assms(2) g obtain b' where w: "wait (writeB bucket) obs = Some (e, b')"
    and s: "sl' = sl1\<lparr>spaces := AList.update k (bucket\<lparr>writeB := b'\<rparr>) (spaces sl1)\<rparr>"
    by (auto simp add: WaitWrite_def split: option.splits)
  from get_band [OF assms(1) g] wait_rps [OF w]
  have "limiter_in_band sl1" "rps_in_band (readB (bucket\<lparr>writeB := b'\<rparr>))"
    "rps_in_band (writeB (bucket\<lparr>writeB := b'\<rparr>))"
    by (simp_all add: rps_in_band_def)
  then show ?thesis unfolding s by (rule store_band)
qed

lemma nudge_limiter_band: "state_in_band st \<Longrightarrow> state_in_band (nudge_limiter args now delta st)"
  by (auto simp add: state_in_band_def nudge_limiter_def NudgeRead_band NudgeWrite_band
      split: option.splits)

lemma nudge_limiter_counters: "counters (nudge_limiter args now delta st) = counters st"
  by (simp add: nudge_limiter_def split: option.splits)

lemma limiter_wait_band:
  "state_in_band st \<Longrightarrow> limiter_wait args e st = Some (r, st') \<Longrightarrow> state_in_band st'"
  by (auto simp add: state_in_band_def limiter_wait_def
      split: option.splits if_splits dest: WaitRead_band WaitWrite_band)

lemma limiter_wait_counters:
  "limiter_wait args e st = Some (r, st') \<Longrightarrow> counters st' = counters st"
  by (auto simp add: limiter_wait_def split: option.splits if_splits)

lemma handle_response_band:
  "state_in_band st \<Longrightarrow> handle_response args now status decodes backoff st = (le, bo, st')
   \<Longrightarrow> state_in_band st'"
  using nudge_limiter_band [of st args now]
  by (auto simp add: handle_response_def Let_def state_in_band_def split: if_splits)

lemma handle_response_429:
  "handle_response args now status decodes backoff st = (le, bo, st') \<Longrightarrow>
   map_option Status429 (counters st')
     = map_option (\<lambda>n. n + (if status = 429 then 1 else 0)) (map_option Status429 (counters st))"
  by (auto simp add: handle_response_def Let_def IsRateLimited_def RecordRateLimit_def
      RecordServerError_def nudge_limiter_counters option.map_comp comp_def
      split: if_splits option.splits)

lemma handle_response_backoff:
  "handle_response args now status decodes backoff st = (le, bo, st') \<Longrightarrow> bo = backoff \<or> bo = 0"
  by (auto simp add: handle_response_def Let_def split: if_splits)

lemma handle_response_terminal:
  "handle_response args now status decodes backoff st = (le, bo, st') \<Longrightarrow>
   400 \<le> status \<Longrightarrow> status < 500 \<Longrightarrow> status \<noteq> 429 \<Longrightarrow>
   le = Some (APIError status) \<and> terminal_client_error le"
  by (auto simp add: handle_response_def Let_def IsRateLimited_def terminal_client_error_def
      split: if_splits)

lemma attempts_made_simps:
  "attempts_made [] = 0"
  "attempts_made (Sent r # tr) = Suc (attempts_made tr)"
  "attempts_made (Slept d # tr) = attempts_made tr"
  by (simp_all add: attempts_made_def)

lemma backoff_waits_simps:
  "backoff_waits [] = []"
  "backoff_waits (Sent r # tr) = backoff_waits tr"
  "backoff_waits (Slept d # tr) = d # backoff_waits tr"
  by (simp_all add: backoff_waits_def)

lemma rate_limited_simps:
  "rate_limited_responses [] = 0"
  "rate_limited_responses (Sent NoResponse # tr) = rate_limited_responses tr"
  "rate_limited_responses (Sent (Response sc d) # tr)
     = (if sc = 429 then 1 else 0) + rate_limited_responses tr"
  "rate_limited_responses (Slept w # tr) = rate_limited_responses tr"
  by (simp_all add: rate_limited_responses_def)

lemma do_attempts_bound:
  "do_attempts c args env left attempt backoff lastErr st = Some (r, st', tr) \<Longrightarrow>
   attempts_made tr \<le> left"
proof (induction left arbitrary: attempt backoff lastErr st tr)
  case 0
  then show ?case by (simp add: attempts_made_simps)
next
  case (Suc left)
  from Suc.prems show ?case
  proof (cases rule: do_attempts_Suc_cases)
    case (transport_retry st1 tr')
    from Suc.IH [OF transport_retry(3)] transport_retry(4) show ?thesis
      by (simp add: attempts_made_simps)
  next
    case (retry st1 status decodes le bo st2 tr')
    from Suc.IH [OF retry(7)] retry(8) show ?thesis
      by (simp add: attempts_made_simps)
  qed (simp_all add: attempts_made_simps)
qed

lemma do_attempts_band:
  "do_attempts c args env left attempt backoff lastErr st = Some (r, st', tr) \<Longrightarrow>
   state_in_band st \<Longrightarrow> state_in_band st'"
proof (induction left arbitrary: attempt backoff lastErr st tr)
  case 0
  then show ?case by simp
next
  case (Suc left)
  from Suc.prems(1) show ?case
  proof (cases rule: do_attempts_Suc_cases)
    case early
    with Suc.prems(2) show ?thesis by simp
  next
    case (throttle_err err)
    from limiter_wait_band [OF Suc.prems(2) throttle_err(2)] show ?thesis .
  next
    case transport_cancel
    from limiter_wait_band [OF Suc.prems(2) transport_cancel(1)] show ?thesis .
  next
    case (transport_retry st1 tr')
    from limiter_wait_band [OF Suc.prems(2) transport_retry(1)] have "state_in_band st1" .
    from Suc.IH [OF transport_retry(3) this] show ?thesis .
  next
    case (final st1 status decodes le bo)
    from limiter_wait_band [OF Suc.prems(2) final(1)] have "state_in_band st1" .
    from handle_response_band [OF this final(3)] show ?thesis .
  next
    case (retry st1 status decodes le bo st2 tr')
    from limiter_wait_band [OF Suc.prems(2) retry(1)] have "state_in_band st1" .
    from handle_response_band [OF this retry(3)] have "state_in_band st2" .
    from Suc.IH [OF retry(7) this] show ?thesis .
  qed
qed

lemma do_attempts_429:
  "do_attempts c args env left attempt backoff lastErr st = Some (r, st', tr) \<Longrightarrow>
   map_option Status429 (counters st')
     = map_option (\<lambda>n. n + int (rate_limited_responses tr)) (map_option Status429 (counters st))"
proof (induction left arbitrary: attempt backoff lastErr st tr)
  case 0
  then show ?case by (simp add: rate_limited_simps option.map_comp comp_def option.map_ident)
next
  case (Suc left)
  from Suc.prems(1) show ?case
  proof (cases rule: do_attempts_Suc_cases)
    case early
    then show ?thesis by (simp add: rate_limited_simps option.map_comp comp_def option.map_ident)
  next
    case (throttle_err err)
    from limiter_wait_counters [OF throttle_err(2)] throttle_err(1) show ?thesis
      by (simp add: rate_limited_simps option.map_comp comp_def option.map_ident)
  next
    case transport_cancel
    from limiter_wait_counters [OF transport_cancel(1)] transport_cancel(3) show ?thesis
      by (simp add: rate_limited_simps option.map_comp comp_def option.map_ident)
  next
    case (transport_retry st1 tr')
    from limiter_wait_counters [OF transport_retry(1)] Suc.IH [OF transport_retry(3)]
      transport_retry(4)
    show ?thesis by (simp add: rate_limited_simps)
  next
    case (final st1 status decodes le bo)
    from limiter_wait_counters [OF final(1)] handle_response_429 [OF final(3)] final(4)
    show ?thesis by (simp add: rate_limited_simps option.map_comp comp_def)
  next
    case (retry st1 status decodes le bo st2 tr')
    from limiter_wait_counters [OF retry(1)] handle_response_429 [OF retry(3)]
      Suc.IH [OF retry(7)] retry(8)
    show ?thesis by (simp add: rate_limited_simps option.map_comp comp_def add.assoc)
  qed
qed

text \<open>The sleeps of one call start at \<open>backoff\<close> and double.\<close>

lemma do_attempts_waits:
  "do_attempts c args env left attempt backoff lastErr st = Some (r, st', tr) \<Longrightarrow>
   backoff_waits tr = map (\<lambda>i. backoff * 2 ^ i) [0..<length (backoff_waits tr)]"
proof (induction left arbitrary: attempt backoff lastErr st tr)
  case 0
  then show ?case by (simp add: backoff_waits_simps)
next
  case (Suc left)
  have shift: "\<And>n (b::int). b # map (\<lambda>i. b * 2 * 2 ^ i) [0..<n] = map (\<lambda>i. b * 2 ^ i) [0..<Suc n]"
  proof -
    fix n and b :: int
    have "[0..<Suc n] = 0 # map Suc [0..<n]"
      by (simp add: upt_conv_Cons map_Suc_upt del: upt_Suc)
    then show "b # map (\<lambda>i. b * 2 * 2 ^ i) [0..<n] = map (\<lambda>i. b * 2 ^ i) [0..<Suc n]"
      by (simp add: comp_def mult.assoc del: upt_Suc)
  qed
  from Suc.prems(1) show ?case
  proof (cases rule: do_attempts_Suc_cases)
    case (transport_retry st1 tr')
    from Suc.IH [OF transport_retry(3)]
    have "backoff_waits tr' = map (\<lambda>i. backoff * 2 * 2 ^ i) [0..<length (backoff_waits tr')]" .
    then have "backoff # backoff_waits tr'
        = map (\<lambda>i. backoff * 2 ^ i) [0..<Suc (length (backoff_waits tr'))]"
      using shift [of backoff "length (backoff_waits tr')"] by simp
    with transport_retry(4) show ?thesis by (simp add: backoff_waits_simps del: upt_Suc)
  next
    case (retry st1 status decodes le bo st2 tr')
    from handle_response_backoff [OF retry(3)] retry(6) have bo: "bo = backoff" by simp
    from Suc.IH [OF retry(7)] bo
    have "backoff_waits tr' = map (\<lambda>i. backoff * 2 * 2 ^ i) [0..<length (backoff_waits tr')]"
      by simp
    then have "backoff # backoff_waits tr'
        = map (\<lambda>i. backoff * 2 ^ i) [0..<Suc (length (backoff_waits tr'))]"
      using shift [of backoff "length (backoff_waits tr')"] by simp
    with retry(8) bo show ?thesis by (simp add: backoff_waits_simps del: upt_Suc)
  qed (simp_all add: backoff_waits_simps)
qed

text \<open>A 4xx response other than 429 is the last action of the call and its result.\<close>

lemma do_attempts_terminal:
  "do_attempts c args env left attempt backoff lastErr st = Some (r, st', tr) \<Longrightarrow>
   Sent (Response sc d) \<in> set tr \<Longrightarrow> 400 \<le> sc \<Longrightarrow> sc < 500 \<Longrightarrow> sc \<noteq> 429 \<Longrightarrow>
   last tr = Sent (Response sc d) \<and> r = Some (APIError sc)"
proof (induction left arbitrary: attempt backoff lastErr st tr)
  case 0
  then show ?case by simp
next
  case (Suc left)
  note t = Suc.prems(3,4,5)
  from Suc.prems(1) show ?case
  proof (cases rule: do_attempts_Suc_cases)
    case early
    with Suc.prems(2) show ?thesis by simp
  next
    case (throttle_err err)
    with Suc.prems(2) show ?thesis by simp
  next
    case transport_cancel
    with Suc.prems(2) show ?thesis by simp
  next
    case (transport_retry st1 tr')
    with Suc.prems(2) have m: "Sent (Response sc d) \<in> set tr'" by simp
    from Suc.IH [OF transport_retry(3) m t] m transport_retry(4) show ?thesis by auto
  next
    case (final st1 status decodes le bo)
    with Suc.prems(2) have e: "status = sc" "decodes = d" by simp_all
    from handle_response_terminal [OF final(3)] t e
    have "le = Some (APIError sc) \<and> terminal_client_error le" by blast
    then have "le = Some (APIError sc)" "terminal_client_error le" by blast+
    with final(4,5) e show ?thesis by simp
  next
    case (retry st1 status decodes le bo st2 tr')
    have "Sent (Response sc d) \<in> set tr'"
    proof (rule ccontr)
      assume "Sent (Response sc d) \<notin> set tr'"
      with Suc.prems(2) retry(8) have e: "status = sc" "decodes = d" by simp_all
      from handle_response_terminal [OF retry(3)] t e retry(5) show False by blast
    qed
    from Suc.IH [OF retry(7) this t] this retry(8) show ?thesis by auto
  qed
qed

text \<open>
  The retry policy of a client made by \<open>NewClient\<close>: at most five requests are sent, the
  sleeps are 250ms doubled each time, and a 4xx response other than 429 ends the call.
\<close>

lemma Client_do_retry_policy:
  assumes "Client_do (NewClient tok) args marshal_ok env st = Some (r, st', tr)"
  shows "attempts_made tr \<le> 5"
    and "backoff_waits tr = map (\<lambda>i. 250 * Millisecond * 2 ^ i) [0..<length (backoff_waits tr)]"
    and "Sent (Response sc d) \<in> set tr \<Longrightarrow> 400 \<le> sc \<Longrightarrow> sc < 500 \<Longrightarrow> sc \<noteq> 429 \<Longrightarrow>
         last tr = Sent (Response sc d) \<and> r = Some (APIError sc)"
proof -
  have "tr = [] \<or> do_attempts (NewClient tok) args env 5 0 (250 * Millisecond) None st = Some (r, st', tr)"
    using assms by (auto simp add: Client_do_def NewClient_def split: if_splits)
  then show "attempts_made tr \<le> 5"
    and "backoff_waits tr = map (\<lambda>i. 250 * Millisecond * 2 ^ i) [0..<length (backoff_waits tr)]"
    and "Sent (Response sc d) \<in> set tr \<Longrightarrow> 400 \<le> sc \<Longrightarrow> sc < 500 \<Longrightarrow> sc \<noteq> 429 \<Longrightarrow>
         last tr = Sent (Response sc d) \<and> r = Some (APIError sc)"
    using do_attempts_bound do_attempts_waits do_attempts_terminal
    by (fastforce simp add: attempts_made_simps backoff_waits_simps)+
qed

text \<open>
  C1. The backoff of a run of retriable failures. With every one of the five attempts
  answered by HTTP 503, \<open>do\<close> sends five requests and sleeps five times, 250ms, 500ms,
  1000ms, 2000ms and, after the fifth and final failed attempt, 4000ms, before it returns
  the 503 error: the loop sleeps after its last attempt as well.
\<close>

theorem retries_exhausted_sleeps_five_times:
  "result_and_trace (Client_do (NewClient ''tok'') write_request True (always_status 503) run_state)
     = Some (Some (APIError 503),
         [Sent (Response 503 True), Slept (250 * Millisecond),
          Sent (Response 503 True), Slept (500 * Millisecond),
          Sent (Response 503 True), Slept (1000 * Millisecond),
          Sent (Response 503 True), Slept (2000 * Millisecond),
          Sent (Response 503 True), Slept (4000 * Millisecond)])"
  by code_simp

text \<open>
  C5. \<open>nudge\<close> sets \<open>rps\<close> to \<open>rps + delta\<close> clamped into \<open>[min, max]\<close>. The closure that
  handles a response nudges by \<open>+0.02\<close> on a decoded 2xx response and by \<open>-0.2\<close> on a 429
  and leaves the limiter alone otherwise. So when every rate of the limiter lies in
  \<open>[1, 7]\<close> before a call of \<open>do\<close>, every rate lies in \<open>[1, 7]\<close> after it, and the 429
  counter attached to the context has grown by the number of 429 responses received.
\<close>

theorem gateway_keeps_rps_in_band:
  "nudge b delta mn mx = b\<lparr>rps := min mx (max mn (rps b + delta))\<rparr>
   \<and> (mn \<le> mx \<longrightarrow> mn \<le> rps (nudge b delta mn mx) \<and> rps (nudge b delta mn mx) \<le> mx)
   \<and> limiter (snd (snd (handle_response args now status decodes backoff st)))
       = limiter (if 200 \<le> status \<and> status < 300 \<and> (has_out args \<longrightarrow> decodes)
                    then nudge_limiter args now (2 / 100) st
                  else if status = 429 then nudge_limiter args now (- (2 / 10)) st
                  else st)
   \<and> (state_in_band st \<longrightarrow> Client_do c args marshal_ok env st = Some (r, st', tr) \<longrightarrow>
        state_in_band st'
        \<and> map_option Status429 (counters st')
            = map_option (\<lambda>n. n + int (rate_limited_responses tr))
                (map_option Status429 (counters st)))"
proof (intro conjI impI)
  show "nudge b delta mn mx = b\<lparr>rps := min mx (max mn (rps b + delta))\<rparr>"
    by (rule nudge_clamp)
  show "mn \<le> rps (nudge b delta mn mx)" if "mn \<le> mx"
    using that by (simp add: nudge_clamp)
  show "rps (nudge b delta mn mx) \<le> mx" if "mn \<le> mx"
    using that by (simp add: nudge_clamp)
  show "limiter (snd (snd (handle_response args now status decodes backoff st)))
       = limiter (if 200 \<le> status \<and> status < 300 \<and> (has_out args \<longrightarrow> decodes)
                    then nudge_limiter args now (2 / 100) st
                  else if status = 429 then nudge_limiter args now (- (2 / 10)) st
                  else st)"
    by (simp add: handle_response_def Let_def IsRateLimited_def)
next
  assume band: "state_in_band st" and run: "Client_do c args marshal_ok env st = Some (r, st', tr)"
  have cases: "(st' = st \<and> tr = []) \<or>
      do_attempts c args env (nat (maxRetries c)) 0 (backoffStart c) None st = Some (r, st', tr)"
    using run by (auto simp add: Client_do_def split: if_splits)
  from cases band show "state_in_band st'"
    using do_attempts_band by blast
  from cases show "map_option Status429 (counters st')
            = map_option (\<lambda>n. n + int (rate_limited_responses tr))
                (map_option Status429 (counters st))"
  proof
    assume "st' = st \<and> tr = []"
    then show ?thesis by (simp add: rate_limited_simps option.map_comp comp_def option.map_ident)
  next
    assume "do_attempts c args env (nat (maxRetries c)) 0 (backoffStart c) None st = Some (r, st', tr)"
    then show ?thesis by (rule do_attempts_429)
  qed
qed

theorem gateway_keeps_rps_in_band_witness:
  "(1::rat) \<le> 7
   \<and> rps (nudge \<lparr> rps = 7, burst = 7, tokens = 7, lastRefill = 0 \<rparr> (- (2 / 10)) 1 7) = 34 / 5
   \<and> state_in_band run_state
   \<and> Client_do (NewClient ''tok'') write_request True (throttled_then_ok 3) run_state
       = Some (None, throttled_final, throttled_trace)
   \<and> state_in_band throttled_final
   \<and> rate_limited_responses throttled_trace = 3
   \<and> map_option Status429 (counters throttled_final) = Some 3"
proof -
  have band: "state_in_band run_state"
    by code_simp
  have run: "Client_do (NewClient ''tok'') write_request True (throttled_then_ok 3) run_state
       = Some (None, throttled_final, throttled_trace)"
    by code_simp
  have n: "rate_limited_responses throttled_trace = 3"
    by code_simp
  have c0: "map_option Status429 (counters run_state) = Some 0"
    by code_simp
  note g = gateway_keeps_rps_in_band [of "\<lparr> rps = 7, burst = 7, tokens = 7, lastRefill = 0 \<rparr>"
      "- (2 / 10)" 1 7 write_request 0 429 True 0 run_state "NewClient ''tok''" True
      "throttled_then_ok 3" None throttled_final throttled_trace]
  from g have "rps (nudge \<lparr> rps = 7, burst = 7, tokens = 7, lastRefill = 0 \<rparr> (- (2 / 10)) 1 7) = 34 / 5"
    by simp
  moreover from g band run have "state_in_band throttled_final" by blast
  moreover from g band run n c0 have "map_option Status429 (counters throttled_final) = Some 3"
    by simp
  ultimately show ?thesis using band run n by simp
qed

section \<open>Properties of the JSON form\<close>















section \<open>Properties of the schema rewriting\<close>

lemma map_whitelist_names:
  "map_whitelist lookup whitelist = map (resolve_name lookup) (filter is_name whitelist)"
proof (induction whitelist)
  case Nil
  then show ?case by simp
next
  case (Cons item rest)
  then show ?case
    by (cases item) (auto simp add: is_name_def resolve_name_def Let_def split: option.splits)
qed

lemma map_of_map_values:
  "map_of (map (\<lambda>(k, v). (k, f v)) al) k = map_option f (map_of al k)"
  by (induction al) auto

text \<open>
  C7. \<open>mapSchemaGroupWhitelist\<close> never returns an error. For every schema field that is an
  object with a list under \<open>component_group_whitelist\<close>, the list is replaced by the list
  of its names (its non-empty string entries) in order, each name that the lookup resolves
  replaced by the UUID and every other name kept as it is; the other members of the field
  stay. With the lookup of the group cache, a name resolves when its trimmed, lower-cased
  form is a key of the cache.
\<close>

theorem whitelist_rewrite:
  "fst (mapSchemaGroupWhitelist component lookup) = None
   \<and> (Schema component = Some schema \<longrightarrow> map_of schema field = Some (JObj fieldMap) \<longrightarrow>
        map_of fieldMap whitelist_key = Some (JArr whitelist) \<longrightarrow>
        (\<exists>schema' fieldMap'.
            Schema (snd (mapSchemaGroupWhitelist component lookup)) = Some schema'
            \<and> map_of schema' field = Some (JObj fieldMap')
            \<and> map_of fieldMap' whitelist_key
                 = Some (JArr (map (resolve_name lookup) (filter is_name whitelist)))
            \<and> (\<forall>k. k \<noteq> whitelist_key \<longrightarrow> map_of fieldMap' k = map_of fieldMap k)))
   \<and> (name \<noteq> [] \<longrightarrow>
        resolve_name (groupCache_Lookup groups) (JStr name)
          = (case map_of (group_data groups) (to_lower (trim_space name)) of
               Some uuid \<Rightarrow> JStr uuid
             | None \<Rightarrow> JStr name))"
proof (intro conjI impI)
  show "fst (mapSchemaGroupWhitelist component lookup) = None"
    by (simp add: mapSchemaGroupWhitelist_def split: option.splits)
next
  assume s: "Schema component = Some schema" and f: "map_of schema field = Some (JObj fieldMap)"
    and w: "map_of fieldMap whitelist_key = Some (JArr whitelist)"
  let ?schema' = "map (\<lambda>(k, v). (k, rewrite_field lookup v)) schema"
  let ?fieldMap' = "AList.update whitelist_key (JArr (map_whitelist lookup whitelist)) fieldMap"
  have 1: "Schema (snd (mapSchemaGroupWhitelist component lookup)) = Some ?schema'"
    using s by (simp add: mapSchemaGroupWhitelist_def)
  have 2: "map_of ?schema' field = Some (JObj ?fieldMap')"
    using f w by (simp add: map_of_map_values rewrite_field_def)
  have 3: "map_of ?fieldMap' whitelist_key
      = Some (JArr (map (resolve_name lookup) (filter is_name whitelist)))"
    by (simp add: update_conv' map_whitelist_names)
  have 4: "\<forall>k. k \<noteq> whitelist_key \<longrightarrow> map_of ?fieldMap' k = map_of fieldMap k"
    by (simp add: update_conv')
  from 1 2 3 4 show "\<exists>schema' fieldMap'.
            Schema (snd (mapSchemaGroupWhitelist component lookup)) = Some schema'
            \<and> map_of schema' field = Some (JObj fieldMap')
            \<and> map_of fieldMap' whitelist_key
                 = Some (JArr (map (resolve_name lookup) (filter is_name whitelist)))
            \<and> (\<forall>k. k \<noteq> whitelist_key \<longrightarrow> map_of fieldMap' k = map_of fieldMap k)"
    by blast
next
  show "resolve_name (groupCache_Lookup groups) (JStr name)
          = (case map_of (group_data groups) (to_lower (trim_space name)) of
               Some uuid \<Rightarrow> JStr uuid
             | None \<Rightarrow> JStr name)"
    by (simp add: resolve_name_def groupCache_Lookup_def)
qed


theorem whitelist_rewrite_witness:
  "Schema page_component = Some page_schema
   \<and> map_of page_schema ''body'' = Some (JObj body_field)
   \<and> map_of body_field whitelist_key = Some (JArr [JStr '' LAYOUT '', JStr ''teasers''])
   \<and> fst (mapSchemaGroupWhitelist page_component (groupCache_Lookup layout_groups)) = None
   \<and> (\<exists>schema' fieldMap'.
          Schema (snd (mapSchemaGroupWhitelist page_component (groupCache_Lookup layout_groups)))
            = Some schema'
          \<and> map_of schema' ''body'' = Some (JObj fieldMap')
          \<and> map_of fieldMap' whitelist_key = Some (JArr [JStr ''uuid-layout'', JStr ''teasers''])
          \<and> map_of fieldMap' ''type'' = Some (JStr ''bloks''))
   \<and> ''teasers'' \<noteq> []
   \<and> resolve_name (groupCache_Lookup layout_groups) (JStr ''teasers'') = JStr ''teasers''
   \<and> resolve_name (groupCache_Lookup layout_groups) (JStr '' LAYOUT '') = JStr ''uuid-layout''"
proof -
  have s: "Schema page_component = Some page_schema"
    by (simp add: page_component_def)
  have f: "map_of page_schema ''body'' = Some (JObj body_field)"
    by code_simp
  have w: "map_of body_field whitelist_key = Some (JArr [JStr '' LAYOUT '', JStr ''teasers''])"
    by code_simp
  have r: "map (resolve_name (groupCache_Lookup layout_groups))
             (filter is_name [JStr '' LAYOUT '', JStr ''teasers''])
           = [JStr ''uuid-layout'', JStr ''teasers'']"
    by code_simp
  have t: "map_of body_field ''type'' = Some (JStr ''bloks'')" "''type'' \<noteq> whitelist_key"
    by code_simp+
  have l: "map_of (group_data layout_groups) (to_lower (trim_space ''teasers'')) = None"
    "map_of (group_data layout_groups) (to_lower (trim_space '' LAYOUT '')) = Some ''uuid-layout''"
    by code_simp+
  note a = whitelist_rewrite [of page_component "groupCache_Lookup layout_groups" page_schema
      "''body''" body_field "[JStr '' LAYOUT '', JStr ''teasers'']" "''teasers''" layout_groups]
  note b = whitelist_rewrite [of page_component "groupCache_Lookup layout_groups" page_schema
      "''body''" body_field "[JStr '' LAYOUT '', JStr ''teasers'']" "'' LAYOUT ''" layout_groups]
  from a have 1: "fst (mapSchemaGroupWhitelist page_component (groupCache_Lookup layout_groups)) = None"
    by blast
  from a s f w obtain schema' fieldMap' where
    x: "Schema (snd (mapSchemaGroupWhitelist page_component (groupCache_Lookup layout_groups)))
          = Some schema'"
       "map_of schema' ''body'' = Some (JObj fieldMap')"
       "map_of fieldMap' whitelist_key
          = Some (JArr (map (resolve_name (groupCache_Lookup layout_groups))
                         (filter is_name [JStr '' LAYOUT '', JStr ''teasers''])))"
       "\<forall>k. k \<noteq> whitelist_key \<longrightarrow> map_of fieldMap' k = map_of body_field k"
    by blast
  from x(3) r have 3: "map_of fieldMap' whitelist_key = Some (JArr [JStr ''uuid-layout'', JStr ''teasers''])"
    by simp
  from x(4) t have 4: "map_of fieldMap' ''type'' = Some (JStr ''bloks'')"
    by simp
  from a l have 5: "resolve_name (groupCache_Lookup layout_groups) (JStr ''teasers'') = JStr ''teasers''"
    by simp
  from b l have 6: "resolve_name (groupCache_Lookup layout_groups) (JStr '' LAYOUT '') = JStr ''uuid-layout''"
    by simp
  from s f w 1 x(1,2) 3 4 5 6 show ?thesis by auto
qed

section \<open>Properties of creating and updating a component\<close>











section \<open>Properties of Run\<close>

















text \<open>
  Processing the plan of the concrete run against the echoing remote side gives the
  outcome that the environment of the concrete run reports.
\<close>

lemma Process_hero:
  "fst (Process echo_api
         \<lparr> proc_spaceID = 1, proc_groups = newGroupCache, proc_tags = newTagCache,
           proc_components = newComponentCache, proc_targetPresets = [] \<rparr>
         \<lparr> plan_index = 0, plan_component = hero_local, plan_existing = zero_component,
           plan_exists = False, plan_presets = [] \<rparr> 300)
   = named_outcome
         \<lparr> proc_spaceID = 1, proc_groups = newGroupCache, proc_tags = newTagCache,
           proc_components = newComponentCache, proc_targetPresets = [] \<rparr>
         \<lparr> plan_index = 0, plan_component = hero_local, plan_existing = zero_component,
           plan_exists = False, plan_presets = [] \<rparr>"
  by code_simp

section \<open>Further properties of the push code\<close>

text \<open>
  Ensuring a group a second time, after a call that resolved it to a UUID, is answered
  from the cache: no request is issued and the same UUID is returned.
\<close>

lemma groupCache_Lookup_Set:
  "name \<noteq> [] \<Longrightarrow> uuid \<noteq> [] \<Longrightarrow> groupCache_Lookup (groupCache_Set groups name uuid) name = Some uuid"
  by (simp add: groupCache_Lookup_def groupCache_Set_def Let_def update_conv')

lemma ensureComponentGroup_again:
  assumes "ensureComponentGroup api sid groups name r = (Inr uuid, groups', r', tr)"
    and "uuid \<noteq> []"
  shows "ensureComponentGroup api sid groups' name r' = (Inr uuid, groups', r', [])"
proof (cases "groupCache_Lookup groups name")
  case (Some found)
  with assms show ?thesis
    by (auto simp add: ensureComponentGroup_def split: if_splits)
next
  case None
  from assms None have n: "name \<noteq> []"
    by (auto simp add: ensureComponentGroup_def split: if_splits)
  from assms None n have "groups' = groupCache_Set groups name uuid"
    by (auto simp add: ensureComponentGroup_def Let_def split: if_splits prod.splits sum.splits)
  with groupCache_Lookup_Set [OF n assms(2)] n show ?thesis
    by (simp add: ensureComponentGroup_def)
qed

text \<open>
  A component whose \<open>PresetID\<close> is zero is sent without a \<open>preset_id\<close> member, as long
  as its extras hold none: the first update of a plan says nothing about the default
  preset.
\<close>

lemma apply_extras_other_key:
  "k \<notin> fst ` set extras \<Longrightarrow> map_of (apply_extras extras base) k = map_of base k"
  unfolding apply_extras_def
  by (induction extras arbitrary: base) (auto simp add: update_conv')

lemma zero_preset_id_not_sent:
  assumes "PresetID c = 0" and "''preset_id'' \<notin> fst ` set (Extras c)"
  shows "members (Component_MarshalJSON c) ''preset_id'' = None"
proof -
  have "map_of (component_alias_fields c) ''preset_id'' = None"
    using assms(1)
    by (simp add: component_alias_fields_def omit_int_def omit_string_def omit_list_def)
  with apply_extras_other_key [OF assms(2)] show ?thesis
    by (simp add: Component_MarshalJSON_def members_def Let_def)
qed

end
